theory Spec2Isabelle
  imports Main
begin

section \<open>Data model (src/src/types.ts)\<close>

text \<open>
  Timestamps. The source stores instants as ISO strings produced by
  \<^verbatim>\<open>new Date().toISOString()\<close> and compares or subtracts them through
  \<^verbatim>\<open>new Date(s)\<close> / \<^verbatim>\<open>getTime()\<close>. An instant is modelled by its epoch
  milliseconds (the value \<^verbatim>\<open>new Date(s).getTime()\<close> gives back), an \<^typ>\<open>int\<close>.
  Counters and durations are JavaScript numbers holding integers; they are \<^typ>\<open>int\<close>
  (the message counter, which only counts up from zero, is \<^typ>\<open>nat\<close>).
\<close>

datatype status = Running | Completed | Errored

record AgentUsage =
  total_tokens_u :: int
  tool_uses_u :: int
  duration_ms_u :: int

text \<open>
  \<^verbatim>\<open>interface AgentRecord\<close>. Nullable props are options; the optional
  \<^verbatim>\<open>agentId?: string\<close> is an option too (\<open>None\<close> is \<^verbatim>\<open>undefined\<close>).
\<close>

record AgentRecord =
  id_r :: string
  session_id :: string
  description :: string
  prompt :: string
  subagent_type :: string
  background :: bool
  status :: status
  started_at :: int
  last_activity :: int
  ended_at :: "int option"
  duration_ms :: "int option"
  error :: "string option"
  output_preview :: "string option"
  output_file :: "string option"
  parent_id :: string
  usage :: "AgentUsage option"
  agentId :: "string option"

record Message =
  id_m :: string
  from_id :: string
  to_id :: string
  type_m :: string
  timestamp :: int

record SessionUsage =
  total_tokens_s :: int
  tool_uses_s :: int
  duration_ms_s :: int
  agent_count :: int

text \<open>
  The registry \<^verbatim>\<open>Map<string, AgentRecord>\<close>. A JavaScript \<^verbatim>\<open>Map\<close> iterates in
  insertion order, and the matching loops depend on that order, so the map is a list of
  entries in insertion order. \<^verbatim>\<open>set\<close> on a key already present replaces the value in
  place; on a new key it appends. Every record object sits under exactly one key, so the
  in-place mutation of a record found in the map is the replacement of the value under
  its key.
\<close>

type_synonym registry = "(string \<times> AgentRecord) list"

definition map_get :: "('k \<times> 'v) list \<Rightarrow> 'k \<Rightarrow> 'v option" where
  "map_get m k = map_of m k"

fun map_set :: "('k \<times> 'v) list \<Rightarrow> 'k \<Rightarrow> 'v \<Rightarrow> ('k \<times> 'v) list" where
  "map_set [] k v = [(k, v)]"
| "map_set ((k', v') # m) k v =
     (if k' = k then (k, v) # m else (k', v') # map_set m k v)"

definition map_delete :: "('k \<times> 'v) list \<Rightarrow> 'k \<Rightarrow> ('k \<times> 'v) list" where
  "map_delete m k = filter (\<lambda>e. fst e \<noteq> k) m"

section \<open>Strings and the regular expressions of the source\<close>

text \<open>
  A JavaScript string is a sequence of UTF-16 code units. A \<^typ>\<open>char\<close> stands for the
  code unit with the same number, so the strings of the model are the strings over
  U+0000 to U+00FF. On these, \<^verbatim>\<open>\s\<close> is tab, line feed, vertical tab, form feed,
  carriage return, space and no-break space; \<^verbatim>\<open>\d\<close> is a decimal digit; \<^verbatim>\<open>\w\<close> is a
  letter of the basic alphabet, a digit or the underscore; and \<^verbatim>\<open>toLowerCase\<close> maps
  A to Z and the capital letters U+00C0 to U+00DE (the multiplication sign U+00D7 apart)
  to the code unit 32 higher and leaves the rest.
\<close>

definition code :: "char \<Rightarrow> nat" where
  "code c = of_char c"

definition is_space :: "char \<Rightarrow> bool" where
  "is_space c = (code c \<in> {9, 10, 11, 12, 13, 32, 160})"

definition is_digit :: "char \<Rightarrow> bool" where
  "is_digit c = (48 \<le> code c \<and> code c \<le> 57)"

definition is_word :: "char \<Rightarrow> bool" where
  "is_word c = (is_digit c \<or> (65 \<le> code c \<and> code c \<le> 90) \<or>
                (97 \<le> code c \<and> code c \<le> 122) \<or> code c = 95)"

definition lower_char :: "char \<Rightarrow> char" where
  "lower_char c =
     (if (65 \<le> code c \<and> code c \<le> 90) \<or> (192 \<le> code c \<and> code c \<le> 222 \<and> code c \<noteq> 215)
      then char_of (code c + 32) else c)"

definition toLowerCase :: "string \<Rightarrow> string" where
  "toLowerCase s = map lower_char s"

definition starts_with :: "string \<Rightarrow> string \<Rightarrow> bool" where
  "starts_with p s = (take (length p) s = p)"

text \<open>
  \<^verbatim>\<open>parseInt(ds, 10)\<close> on a non-empty run of decimal digits, and \<^verbatim>\<open>String(n)\<close> on a
  natural number. (Both are exact here; JavaScript numbers are exact up to 2^53.)
\<close>

definition parseInt10 :: "string \<Rightarrow> int" where
  "parseInt10 ds = foldl (\<lambda>n c. 10 * n + int (code c - 48)) 0 ds"

fun String_nat :: "nat \<Rightarrow> string" where
  "String_nat n =
     (if n < 10 then [char_of (48 + n)]
      else String_nat (n div 10) @ [char_of (48 + n mod 10)])"

declare String_nat.simps [simp del]

text \<open>
  A regular expression without the sticky flag is tried at every start index from the
  left; the first index where it matches gives the result. \<open>search m s\<close> tries the
  matcher \<open>m\<close> on every suffix of \<open>s\<close>, the empty one included.
\<close>

fun search :: "(string \<Rightarrow> 'a option) \<Rightarrow> string \<Rightarrow> 'a option" where
  "search m [] = m []"
| "search m (c # cs) = (case m (c # cs) of Some r \<Rightarrow> Some r | None \<Rightarrow> search m cs)"

text \<open>
  \<^verbatim>\<open>/total_tokens[:\s]+(\d+)/\<close> and its two siblings at a fixed start index: the
  literal, then the longest run of colons and white space, which must not be empty, then
  the longest run of digits, which must not be empty and is the capture. (The two classes
  are disjoint, so backtracking into a shorter run never helps.)
\<close>

definition num_field_at :: "string \<Rightarrow> string \<Rightarrow> string option" where
  "num_field_at lit s =
     (if starts_with lit s
      then (let rest = drop (length lit) s;
                seps = takeWhile (\<lambda>c. c = CHR '':'' \<or> is_space c) rest;
                ds = takeWhile is_digit (dropWhile (\<lambda>c. c = CHR '':'' \<or> is_space c) rest)
            in if seps \<noteq> [] \<and> ds \<noteq> [] then Some ds else None)
      else None)"

definition num_field :: "string \<Rightarrow> string \<Rightarrow> string option" where
  "num_field lit text = search (num_field_at lit) text"

text \<open>
  \<^verbatim>\<open>/output_file:\s*(\S+)/\<close> and \<^verbatim>\<open>/agentId:\s*(\S+)/\<close> at a fixed start index: the
  literal, the longest run of white space, then the longest run of other characters,
  which must not be empty and is the capture.
\<close>

definition token_field_at :: "string \<Rightarrow> string \<Rightarrow> string option" where
  "token_field_at lit s =
     (if starts_with lit s
      then (let tok = takeWhile (\<lambda>c. \<not> is_space c) (dropWhile is_space (drop (length lit) s))
            in if tok \<noteq> [] then Some tok else None)
      else None)"

definition token_field :: "string \<Rightarrow> string \<Rightarrow> string option" where
  "token_field lit text = search (token_field_at lit) text"

text \<open>
  \<^verbatim>\<open>/<usage>([\s\S]*?)<\/usage>/\<close>: the opening tag, then the shortest text that is
  followed by the closing tag.
\<close>

fun before_first :: "string \<Rightarrow> string \<Rightarrow> string option" where
  "before_first lit [] = (if lit = [] then Some [] else None)"
| "before_first lit (c # cs) =
     (if starts_with lit (c # cs) then Some []
      else map_option ((#) c) (before_first lit cs))"

definition usage_block_at :: "string \<Rightarrow> string option" where
  "usage_block_at s =
     (if starts_with ''<usage>'' s then before_first ''</usage>'' (drop 7 s) else None)"

definition usage_block :: "string \<Rightarrow> string option" where
  "usage_block output = search usage_block_at output"

text \<open>
  \<^verbatim>\<open>/Async agent launched/i\<close>. Under the \<^verbatim>\<open>i\<close> flag a code unit below 256 matches a
  basic letter of the pattern exactly when it is that letter in either case, so the test
  is a search for the lower-case literal in the lower-cased text.
\<close>

definition async_launch_test :: "string \<Rightarrow> bool" where
  "async_launch_test s =
     (search (\<lambda>t. if starts_with ''async agent launched'' t then Some () else None)
        (toLowerCase s) \<noteq> None)"

text \<open>
  \<^verbatim>\<open>/\berror[:;\s]|\bfailed\b|\bexception\b|\btraceback\b/\<close>. The assertion \<^verbatim>\<open>\b\<close>
  holds between two positions when exactly one of the characters before and after is a
  word character (a missing character counts as not one). \<open>prev\<close> is the character
  before the start index.
\<close>

definition word_boundary :: "char option \<Rightarrow> string \<Rightarrow> bool" where
  "word_boundary prev rest =
     ((case prev of None \<Rightarrow> False | Some c \<Rightarrow> is_word c) \<noteq>
      (case rest of [] \<Rightarrow> False | c # _ \<Rightarrow> is_word c))"

definition alt_error_at :: "char option \<Rightarrow> string \<Rightarrow> bool" where
  "alt_error_at prev s =
     (word_boundary prev s \<and> starts_with ''error'' s \<and>
      (case drop 5 s of [] \<Rightarrow> False
       | c # _ \<Rightarrow> c = CHR '':'' \<or> c = CHR '';'' \<or> is_space c))"

definition alt_word_at :: "string \<Rightarrow> char option \<Rightarrow> string \<Rightarrow> bool" where
  "alt_word_at w prev s =
     (word_boundary prev s \<and> starts_with w s \<and>
      word_boundary (Some (last w)) (drop (length w) s))"

definition error_regex_at :: "char option \<Rightarrow> string \<Rightarrow> bool" where
  "error_regex_at prev s =
     (alt_error_at prev s \<or> alt_word_at ''failed'' prev s \<or>
      alt_word_at ''exception'' prev s \<or> alt_word_at ''traceback'' prev s)"

fun error_regex_from :: "char option \<Rightarrow> string \<Rightarrow> bool" where
  "error_regex_from prev [] = error_regex_at prev []"
| "error_regex_from prev (c # cs) =
     (error_regex_at prev (c # cs) \<or> error_regex_from (Some c) cs)"

definition error_regex_test :: "string \<Rightarrow> bool" where
  "error_regex_test s = error_regex_from None s"

section \<open>Utilities (src/src/utils.ts)\<close>

text \<open>
  \<^verbatim>\<open>parseUsage\<close>. The argument is \<open>None\<close> when the output is not a string (null or
  undefined).
\<close>

definition parseUsage :: "string option \<Rightarrow> AgentUsage option" where
  "parseUsage output =
     (case output of
        None \<Rightarrow> None
      | Some out \<Rightarrow>
          (let text = (case usage_block out of Some b \<Rightarrow> b | None \<Rightarrow> out);
               totalMatch = num_field ''total_tokens'' text;
               toolMatch = num_field ''tool_uses'' text;
               durMatch = num_field ''duration_ms'' text
           in if totalMatch = None \<and> toolMatch = None \<and> durMatch = None then None
              else Some \<lparr> total_tokens_u = (case totalMatch of Some d \<Rightarrow> parseInt10 d | None \<Rightarrow> 0),
                          tool_uses_u = (case toolMatch of Some d \<Rightarrow> parseInt10 d | None \<Rightarrow> 0),
                          duration_ms_u = (case durMatch of Some d \<Rightarrow> parseInt10 d | None \<Rightarrow> 0) \<rparr>))"

text \<open>
  \<^verbatim>\<open>isError\<close>. \<^verbatim>\<open>is_error\<close> is \<open>None\<close> when the event carries no boolean.
\<close>

definition isError :: "bool option \<Rightarrow> string option \<Rightarrow> bool" where
  "isError is_error tool_output =
     (case is_error of
        Some True \<Rightarrow> True
      | Some False \<Rightarrow> False
      | None \<Rightarrow>
          (case tool_output of
             Some out \<Rightarrow> error_regex_test (toLowerCase (take 500 out))
           | None \<Rightarrow> False))"

section \<open>Matching engine (src/src/matching.ts)\<close>

text \<open>
  \<^verbatim>\<open>findMatchingAgent\<close>: tier 1 looks the tool-use id up as a map key (an empty or
  absent id is falsy and skips the tier), tier 2 scans for a running record with the given
  background agent id. The result is the entry (key and record) holding the record found.
\<close>

definition findMatchingAgent ::
  "registry \<Rightarrow> string option \<Rightarrow> string option \<Rightarrow> (string \<times> AgentRecord) option" where
  "findMatchingAgent agents toolUseId agentId' =
     (let tier1 =
        (case toolUseId of
           None \<Rightarrow> None
         | Some t \<Rightarrow>
             if t = [] then None
             else (case map_get agents t of
                     None \<Rightarrow> None
                   | Some r \<Rightarrow> if status r = Running then Some (t, r) else None))
      in case tier1 of
           Some e \<Rightarrow> Some e
         | None \<Rightarrow>
             (case agentId' of
                None \<Rightarrow> None
              | Some a \<Rightarrow>
                  if a = [] then None
                  else find (\<lambda>e. status (snd e) = Running \<and> agentId (snd e) = Some a) agents))"

text \<open>
  \<^verbatim>\<open>findTaskOutputAgent\<close>. The first loop returns the first running background record
  whose \<^verbatim>\<open>agentId\<close> is the task id. The second loop keeps the oldest running background
  record of the session; a later record replaces the current one only when it started
  strictly earlier.
\<close>

fun oldest_loop ::
  "string \<Rightarrow> (string \<times> AgentRecord) option \<Rightarrow> registry \<Rightarrow> (string \<times> AgentRecord) option" where
  "oldest_loop sessionId oldest [] = oldest"
| "oldest_loop sessionId oldest (e # es) =
     (if status (snd e) = Running \<and> background (snd e) \<and> session_id (snd e) = sessionId
      then (if (case oldest of None \<Rightarrow> True
                | Some b \<Rightarrow> started_at (snd e) < started_at (snd b))
            then oldest_loop sessionId (Some e) es
            else oldest_loop sessionId oldest es)
      else oldest_loop sessionId oldest es)"

definition findTaskOutputAgent ::
  "registry \<Rightarrow> string \<Rightarrow> string \<Rightarrow> (string \<times> AgentRecord) option" where
  "findTaskOutputAgent agents taskId sessionId =
     (case find (\<lambda>e. status (snd e) = Running \<and> background (snd e)
                      \<and> agentId (snd e) = Some taskId) agents of
        Some e \<Rightarrow> Some e
      | None \<Rightarrow> oldest_loop sessionId None agents)"

text \<open>
  \<^verbatim>\<open>findDeepestRunningAgent\<close>: the loop skips the excluded id, other sessions and
  records that are not running, and keeps the record that started strictly later than the
  current best.
\<close>

fun deepest_loop ::
  "string \<Rightarrow> string \<Rightarrow> AgentRecord option \<Rightarrow> registry \<Rightarrow> AgentRecord option" where
  "deepest_loop sessionId excludeKey best [] = best"
| "deepest_loop sessionId excludeKey best (e # es) =
     (if id_r (snd e) = excludeKey then deepest_loop sessionId excludeKey best es
      else if session_id (snd e) \<noteq> sessionId then deepest_loop sessionId excludeKey best es
      else if status (snd e) \<noteq> Running then deepest_loop sessionId excludeKey best es
      else if (case best of None \<Rightarrow> True | Some b \<Rightarrow> started_at (snd e) > started_at b)
           then deepest_loop sessionId excludeKey (Some (snd e)) es
           else deepest_loop sessionId excludeKey best es)"

definition findDeepestRunningAgent :: "registry \<Rightarrow> string \<Rightarrow> string \<Rightarrow> AgentRecord option" where
  "findDeepestRunningAgent agents sessionId excludeKey =
     deepest_loop sessionId excludeKey None agents"

section \<open>Configuration (src/src/config.ts)\<close>

text \<open>The settings the modelled functions read, and the defaults of \<^verbatim>\<open>loadConfig\<close>.\<close>

record config =
  bossActiveMs :: int
  autoResetMs :: int
  maxMessages :: nat

definition defaultConfig :: config where
  "defaultConfig = \<lparr> bossActiveMs = 30000, autoResetMs = 60000, maxMessages = 200 \<rparr>"

section \<open>In-memory state (src/src/state.ts)\<close>

text \<open>
  The module-level variables of state.ts. \<open>autoResetTimer\<close> tells whether a timeout is
  pending. The SQLite mirror (\<^verbatim>\<open>persistAgent\<close>, \<^verbatim>\<open>persistMessage\<close>, the writes of
  \<^verbatim>\<open>notifyClients\<close>, \<^verbatim>\<open>clearAllTables\<close>) and the SSE fan-out never change these
  variables, and every exception of theirs is caught, so they have no counterpart here.
  One request (or timer callback) reads the clock as one instant \<open>now\<close>.
\<close>

record state =
  agents :: registry
  messages :: "Message list"
  messageCounter :: nat
  sessionUsage :: SessionUsage
  lastEventTime :: int
  lastCompletionTime :: int
  autoResetTimer :: bool

definition initial_state :: state where
  "initial_state =
     \<lparr> agents = [], messages = [], messageCounter = 0,
       sessionUsage = \<lparr> total_tokens_s = 0, tool_uses_s = 0, duration_ms_s = 0, agent_count = 0 \<rparr>,
       lastEventTime = 0, lastCompletionTime = 0, autoResetTimer = False \<rparr>"

definition setLastEventTime :: "int \<Rightarrow> state \<Rightarrow> state" where
  "setLastEventTime t st = st\<lparr>lastEventTime := t\<rparr>"

definition setLastCompletionTime :: "int \<Rightarrow> state \<Rightarrow> state" where
  "setLastCompletionTime t st = st\<lparr>lastCompletionTime := t\<rparr>"

text \<open>
  \<^verbatim>\<open>loadFromDb\<close>. The rows of the store are its arguments: the agents and messages
  tables, the saved message counter (absent, or the number its decimal text parses to) and
  the saved session usage (absent or unparsable, or the four counters).
\<close>

definition restart_mark :: "int \<Rightarrow> AgentRecord \<Rightarrow> AgentRecord" where
  "restart_mark now agent =
     (if status agent = Running
      then agent\<lparr>status := Errored,
                 error := Some ''Server restarted while agent was running'',
                 ended_at := Some now\<rparr>
      else agent)"

definition loadFromDb ::
  "int \<Rightarrow> AgentRecord list \<Rightarrow> Message list \<Rightarrow> nat option \<Rightarrow> SessionUsage option \<Rightarrow> state \<Rightarrow> state" where
  "loadFromDb now dbAgents dbMessages savedCounter savedUsage st =
     (let loaded = foldl (\<lambda>m agent. map_set m (id_r agent) agent) (agents st) dbAgents;
          marked = map (\<lambda>e. (fst e, restart_mark now (snd e))) loaded
      in st\<lparr>agents := marked,
            messages := messages st @ dbMessages,
            messageCounter := (case savedCounter of Some n \<Rightarrow> n | None \<Rightarrow> messageCounter st),
            sessionUsage := (case savedUsage of Some u \<Rightarrow> u | None \<Rightarrow> sessionUsage st)\<rparr>)"

text \<open>
  \<^verbatim>\<open>addMessage\<close>: \<^verbatim>\<open>splice(0, length - maxMessages)\<close> removes that many entries from
  the front.
\<close>

definition addMessage :: "config \<Rightarrow> int \<Rightarrow> string \<Rightarrow> string \<Rightarrow> string \<Rightarrow> state \<Rightarrow> state" where
  "addMessage cfg now from_id' to_id' type' st =
     (let counter = messageCounter st + 1;
          entry = \<lparr> id_m = String_nat counter, from_id = from_id', to_id = to_id',
                    type_m = type', timestamp = now \<rparr>;
          pushed = messages st @ [entry];
          trimmed = (if length pushed > maxMessages cfg
                     then drop (length pushed - maxMessages cfg) pushed else pushed)
      in st\<lparr>messageCounter := counter, messages := trimmed\<rparr>)"

definition resetState :: "state \<Rightarrow> state" where
  "resetState st =
     st\<lparr>agents := [], messages := [], messageCounter := 0,
        sessionUsage := \<lparr> total_tokens_s = 0, tool_uses_s = 0, duration_ms_s = 0, agent_count = 0 \<rparr>,
        lastEventTime := 0\<rparr>"

definition hasRunning :: "registry \<Rightarrow> bool" where
  "hasRunning m = (\<exists>e \<in> set m. status (snd e) = Running)"

text \<open>
  \<^verbatim>\<open>scheduleAutoReset\<close> clears a pending timeout, returns when a record is running, and
  arms the timeout when the registry is not empty. \<open>autoResetFire\<close> is the callback the
  timeout runs, \<^verbatim>\<open>autoResetMs\<close> after it was armed unless it is cleared before; \<open>now\<close>
  is the time at which it runs.
\<close>

definition scheduleAutoReset :: "state \<Rightarrow> state" where
  "scheduleAutoReset st =
     (let st1 = st\<lparr>autoResetTimer := False\<rparr>
      in if hasRunning (agents st1) then st1
         else if agents st1 \<noteq> [] then st1\<lparr>autoResetTimer := True\<rparr>
         else st1)"

definition autoResetFire :: "config \<Rightarrow> int \<Rightarrow> state \<Rightarrow> state" where
  "autoResetFire cfg now st =
     (if hasRunning (agents st) then st\<lparr>autoResetTimer := False\<rparr>
      else if now - lastEventTime st < bossActiveMs cfg then scheduleAutoReset st
      else (resetState st)\<lparr>autoResetTimer := False\<rparr>)"

definition cancelAutoReset :: "state \<Rightarrow> state" where
  "cancelAutoReset st = st\<lparr>autoResetTimer := False\<rparr>"

section \<open>Request bodies and their schemas (src/src/types.ts)\<close>

text \<open>
  A request body is a JSON value as \<^verbatim>\<open>express.json()\<close> parses it; an object is the list
  of its properties. Numbers are the integers (the counts and milliseconds the clients
  send). A schema's \<^verbatim>\<open>safeParse\<close> gives \<open>None\<close> when validation fails.
\<close>

datatype json = JNull | JBool bool | JNum int | JStr string | JArr "json list"
  | JObj "(string \<times> json) list"

fun truthy :: "json option \<Rightarrow> bool" where
  "truthy None = False"
| "truthy (Some JNull) = False"
| "truthy (Some (JBool b)) = b"
| "truthy (Some (JNum n)) = (n \<noteq> 0)"
| "truthy (Some (JStr s)) = (s \<noteq> [])"
| "truthy (Some (JArr _)) = True"
| "truthy (Some (JObj _)) = True"

text \<open>
  The field validators: \<^verbatim>\<open>z.string().default(d)\<close>, \<^verbatim>\<open>z.string().optional()\<close>,
  \<^verbatim>\<open>z.enum(['pre', 'post'])\<close>, \<^verbatim>\<open>z.record(z.unknown()).default({})\<close>,
  \<^verbatim>\<open>z.union([z.string(), z.null()]).optional()\<close>, \<^verbatim>\<open>z.boolean().optional()\<close> and
  \<^verbatim>\<open>z.number().optional()\<close>. The argument is the property's value, \<open>None\<close> when the
  property is absent; the outer \<open>None\<close> of the result is a validation failure.
\<close>

datatype phase = Pre | Post

fun z_string_default :: "string \<Rightarrow> json option \<Rightarrow> string option" where
  "z_string_default d None = Some d"
| "z_string_default d (Some (JStr s)) = Some s"
| "z_string_default d (Some _) = None"

fun z_string_optional :: "json option \<Rightarrow> string option option" where
  "z_string_optional None = Some None"
| "z_string_optional (Some (JStr s)) = Some (Some s)"
| "z_string_optional (Some _) = None"

fun z_enum_phase :: "json option \<Rightarrow> phase option" where
  "z_enum_phase (Some (JStr s)) =
     (if s = ''pre'' then Some Pre else if s = ''post'' then Some Post else None)"
| "z_enum_phase _ = None"

fun z_record_default :: "json option \<Rightarrow> (string \<times> json) list option" where
  "z_record_default None = Some []"
| "z_record_default (Some (JObj props)) = Some props"
| "z_record_default (Some _) = None"

fun z_string_or_null_optional :: "json option \<Rightarrow> string option option" where
  "z_string_or_null_optional None = Some None"
| "z_string_or_null_optional (Some JNull) = Some None"
| "z_string_or_null_optional (Some (JStr s)) = Some (Some s)"
| "z_string_or_null_optional (Some _) = None"

fun z_boolean_optional :: "json option \<Rightarrow> bool option option" where
  "z_boolean_optional None = Some None"
| "z_boolean_optional (Some (JBool b)) = Some (Some b)"
| "z_boolean_optional (Some _) = None"

fun z_number_optional :: "json option \<Rightarrow> int option option" where
  "z_number_optional None = Some None"
| "z_number_optional (Some (JNum n)) = Some (Some n)"
| "z_number_optional (Some _) = None"

text \<open>
  \<^verbatim>\<open>HookEvent\<close>, the output type of \<^verbatim>\<open>HookEventSchema\<close>. \<open>tool_output\<close> is \<open>None\<close>
  for null and for undefined, which the handlers do not tell apart.
\<close>

record HookEvent =
  session_id_e :: string
  hook_phase :: phase
  tool_name :: string
  tool_use_id :: "string option"
  tool_input :: "(string \<times> json) list"
  tool_output :: "string option"
  is_error :: "bool option"

definition HookEventSchema_safeParse :: "json \<Rightarrow> HookEvent option" where
  "HookEventSchema_safeParse body =
     (case body of
        JObj props \<Rightarrow>
          (case (z_string_default [] (map_of props ''session_id''),
                 z_enum_phase (map_of props ''hook_phase''),
                 z_string_default [] (map_of props ''tool_name''),
                 z_string_optional (map_of props ''tool_use_id''),
                 z_record_default (map_of props ''tool_input''),
                 z_string_or_null_optional (map_of props ''tool_output''),
                 z_boolean_optional (map_of props ''is_error'')) of
             (Some sid, Some ph, Some tn, Some tu, Some ti, Some out, Some ie) \<Rightarrow>
               Some \<lparr> session_id_e = sid, hook_phase = ph, tool_name = tn, tool_use_id = tu,
                      tool_input = ti, tool_output = out, is_error = ie \<rparr>
           | _ \<Rightarrow> None)
      | _ \<Rightarrow> None)"

record CompleteEvent =
  description_c :: "string option"
  result_c :: "string option"
  tokens :: "int option"
  tool_uses :: "int option"
  duration_ms_c :: "int option"
  is_error_c :: "bool option"
  agent_id :: "string option"
  tool_use_id_c :: "string option"

definition CompleteEventSchema_safeParse :: "json \<Rightarrow> CompleteEvent option" where
  "CompleteEventSchema_safeParse body =
     (case body of
        JObj props \<Rightarrow>
          (case (z_string_optional (map_of props ''description''),
                 z_string_optional (map_of props ''result''),
                 z_number_optional (map_of props ''tokens''),
                 z_number_optional (map_of props ''tool_uses''),
                 z_number_optional (map_of props ''duration_ms''),
                 z_boolean_optional (map_of props ''is_error''),
                 z_string_optional (map_of props ''agent_id''),
                 z_string_optional (map_of props ''tool_use_id'')) of
             (Some d, Some r, Some t, Some tu, Some dm, Some ie, Some a, Some tid) \<Rightarrow>
               Some \<lparr> description_c = d, result_c = r, tokens = t, tool_uses = tu,
                      duration_ms_c = dm, is_error_c = ie, agent_id = a, tool_use_id_c = tid \<rparr>
           | _ \<Rightarrow> None)
      | _ \<Rightarrow> None)"

section \<open>POST /complete (src/src/routes/complete.ts)\<close>

text \<open>
  A handler returns the HTTP status of the response and the state it leaves. \<open>a || b\<close>
  on numbers takes \<open>b\<close> when \<open>a\<close> is absent or zero.
\<close>

definition num_or :: "int option \<Rightarrow> int \<Rightarrow> int" where
  "num_or a b = (case a of Some n \<Rightarrow> if n \<noteq> 0 then n else b | None \<Rightarrow> b)"

definition parent_or_user :: "AgentRecord \<Rightarrow> string" where
  "parent_or_user r = (if parent_id r \<noteq> [] then parent_id r else ''__user__'')"

definition complete_event :: "config \<Rightarrow> int \<Rightarrow> CompleteEvent \<Rightarrow> state \<Rightarrow> state" where
  "complete_event cfg now ev st =
     (case findMatchingAgent (agents st) (tool_use_id_c ev) (agent_id ev) of
        None \<Rightarrow> st
      | Some (k, matchedRecord) \<Rightarrow>
          (let errored = (is_error_c ev = Some True);
               r1 = matchedRecord
                 \<lparr>status := (if errored then Errored else Completed),
                  ended_at := Some now,
                  duration_ms := Some (num_or (duration_ms_c ev) (now - started_at matchedRecord)),
                  output_preview := map_option (take 2000) (result_c ev),
                  error := (if errored then map_option (take 300) (result_c ev) else None),
                  usage := Some \<lparr> total_tokens_u = num_or (tokens ev) 0,
                                   tool_uses_u = num_or (tool_uses ev) 0,
                                   duration_ms_u = num_or (duration_ms_c ev) 0 \<rparr>\<rparr>;
               st1 = st\<lparr>agents := map_set (agents st) k r1\<rparr>;
               st2 = setLastCompletionTime now st1;
               su = sessionUsage st2;
               st3 = st2\<lparr>sessionUsage :=
                        \<lparr> total_tokens_s = total_tokens_s su + num_or (tokens ev) 0,
                          tool_uses_s = tool_uses_s su + num_or (tool_uses ev) 0,
                          duration_ms_s = duration_ms_s su + num_or (duration_ms_c ev) 0,
                          agent_count = agent_count su + 1 \<rparr>\<rparr>;
               st4 = addMessage cfg now (id_r r1) (parent_or_user r1) ''Response'' st3
           in scheduleAutoReset st4))"

definition complete_route :: "config \<Rightarrow> int \<Rightarrow> json \<Rightarrow> state \<Rightarrow> nat \<times> state" where
  "complete_route cfg now body st =
     (let st1 = setLastEventTime now st
      in case CompleteEventSchema_safeParse body of
           None \<Rightarrow> (400, st1)
         | Some ev \<Rightarrow> (200, complete_event cfg now ev st1))"

section \<open>POST /event (src/src/routes/event.ts)\<close>

text \<open>
  The handler reads \<^verbatim>\<open>description\<close>, \<^verbatim>\<open>task_id\<close>, \<^verbatim>\<open>subagent_type\<close> and
  \<^verbatim>\<open>output_file\<close> of \<^verbatim>\<open>tool_input\<close> through the cast \<^verbatim>\<open>as string\<close> and a default
  for a falsy value: \<open>str_field\<close> gives the string stored under the property and the
  empty string when the property is absent or holds no string, and \<open>str_or\<close> is the
  \<^verbatim>\<open>||\<close> of two strings. (The cast does not check; the model covers inputs whose
  properties of these names hold strings or falsy values, as the cast assumes.)
\<close>

definition str_field :: "(string \<times> json) list \<Rightarrow> string \<Rightarrow> string" where
  "str_field obj k = (case map_of obj k of Some (JStr s) \<Rightarrow> s | _ \<Rightarrow> [])"

definition str_or :: "string \<Rightarrow> string \<Rightarrow> string" where
  "str_or a b = (if a \<noteq> [] then a else b)"

text \<open>
  The accumulation of a parsed usage block into the session counters (a zero field is
  falsy and skipped), with the count of finished agents.
\<close>

definition count_completion :: "AgentUsage option \<Rightarrow> SessionUsage \<Rightarrow> SessionUsage" where
  "count_completion u su =
     (let su1 = su\<lparr>agent_count := agent_count su + 1\<rparr>
      in case u of
           None \<Rightarrow> su1
         | Some us \<Rightarrow>
             su1\<lparr>total_tokens_s :=
                    (if total_tokens_u us \<noteq> 0 then total_tokens_s su1 + total_tokens_u us
                     else total_tokens_s su1),
                 tool_uses_s :=
                    (if tool_uses_u us \<noteq> 0 then tool_uses_s su1 + tool_uses_u us
                     else tool_uses_s su1),
                 duration_ms_s :=
                    (if duration_ms_u us \<noteq> 0 then duration_ms_s su1 + duration_ms_u us
                     else duration_ms_s su1)\<rparr>)"

text \<open>
  The branch for \<^verbatim>\<open>tool_name === 'TaskOutput' && hook_phase === 'post'\<close>.
  \<open>finalize_taskOutput\<close> collects the assignments to the matched record: the wall-clock
  duration is replaced by the duration of the parsed usage block whenever that is not
  zero.
\<close>

definition finalize_taskOutput :: "int \<Rightarrow> HookEvent \<Rightarrow> AgentRecord \<Rightarrow> AgentRecord" where
  "finalize_taskOutput now ev matchedRecord =
     (let errored = isError (is_error ev) (tool_output ev);
          u = parseUsage (tool_output ev);
          r1 = matchedRecord
            \<lparr>last_activity := now,
             status := (if errored then Errored else Completed),
             ended_at := Some now,
             duration_ms := Some (now - started_at matchedRecord),
             error := (if errored then map_option (take 300) (tool_output ev) else None),
             output_preview := map_option (take 2000) (tool_output ev)\<rparr>;
          r2 = (case u of Some us \<Rightarrow> r1\<lparr>usage := Some us\<rparr> | None \<Rightarrow> r1)
      in case u of
           Some us \<Rightarrow>
             if duration_ms_u us \<noteq> 0 then r2\<lparr>duration_ms := Some (duration_ms_u us)\<rparr> else r2
         | None \<Rightarrow> r2)"

definition taskOutput_post :: "config \<Rightarrow> int \<Rightarrow> HookEvent \<Rightarrow> state \<Rightarrow> state" where
  "taskOutput_post cfg now ev st =
     (let taskId = str_or (str_field (tool_input ev) ''task_id'') []
      in case findTaskOutputAgent (agents st) taskId (session_id_e ev) of
           None \<Rightarrow> st
         | Some (k, matchedRecord) \<Rightarrow>
             if status matchedRecord \<noteq> Running then st
             else
               (let r = finalize_taskOutput now ev matchedRecord;
                    st1 = setLastCompletionTime now (st\<lparr>agents := map_set (agents st) k r\<rparr>);
                    st2 = addMessage cfg now (id_r r) (parent_or_user r) ''Response'' st1;
                    st3 = st2\<lparr>sessionUsage :=
                             count_completion (parseUsage (tool_output ev)) (sessionUsage st2)\<rparr>
                in scheduleAutoReset st3))"

text \<open>The block \<^verbatim>\<open>if (hook_phase === 'pre')\<close>.\<close>

definition pre_phase ::
  "config \<Rightarrow> int \<Rightarrow> HookEvent \<Rightarrow> string \<Rightarrow> string \<Rightarrow> state \<Rightarrow> state" where
  "pre_phase cfg now ev description' key st =
     (let st1 = cancelAutoReset st;
          timeSinceLastCompletion = now - lastCompletionTime st1;
          st2 = (if \<not> hasRunning (agents st1) \<and> agents st1 \<noteq> [] \<and> timeSinceLastCompletion > 60000
                 then resetState st1 else st1);
          parent_id' = (case findDeepestRunningAgent (agents st2) (session_id_e ev) key of
                          Some parentAgent \<Rightarrow> id_r parentAgent
                        | None \<Rightarrow> ''__user__'');
          record =
            \<lparr> id_r = key, session_id = session_id_e ev, description = description',
              prompt = take 1500 (str_field (tool_input ev) ''prompt''),
              subagent_type = str_or (str_field (tool_input ev) ''subagent_type'') ''unknown'',
              background = truthy (map_of (tool_input ev) ''run_in_background''),
              status = Running, started_at = now, last_activity = now, ended_at = None,
              duration_ms = None, error = None, output_preview = None,
              output_file = (let f = str_field (tool_input ev) ''output_file''
                             in if f \<noteq> [] then Some f else None),
              parent_id = parent_id', usage = None, agentId = None \<rparr>;
          st3 = st2\<lparr>agents := map_set (agents st2) key record\<rparr>;
          msgType = (if parent_id' = ''__user__'' then ''Prompt'' else ''TaskCreate'')
      in addMessage cfg now parent_id' key msgType st3)"

text \<open>
  The block \<^verbatim>\<open>if (hook_phase === 'post')\<close>. \<open>isMatchable\<close> is the condition of the
  re-key scan; \<open>resolve_post\<close> is the lookup by key, the scan that moves the first
  matching record to the new key, and the placeholder record when both find nothing. It
  gives the record the rest of the block works on and the registry holding it under
  \<open>key\<close>.
\<close>

definition isMatchable :: "AgentRecord \<Rightarrow> bool" where
  "isMatchable r =
     (status r = Running \<or>
      (status r = Errored \<and> error r = Some ''Server restarted while agent was running''))"

definition resolve_post ::
  "int \<Rightarrow> HookEvent \<Rightarrow> string \<Rightarrow> string \<Rightarrow> registry \<Rightarrow> AgentRecord \<times> registry" where
  "resolve_post now ev description' key m =
     (case map_get m key of
        Some r \<Rightarrow> (r, m)
      | None \<Rightarrow>
          (case find (\<lambda>e. session_id (snd e) = session_id_e ev \<and>
                          description (snd e) = description' \<and> isMatchable (snd e)) m of
             Some (existingKey, r) \<Rightarrow>
               (let r' = r\<lparr>id_r := key\<rparr>
                in (r', map_set (map_delete m existingKey) key r'))
           | None \<Rightarrow>
               (let r' =
                  \<lparr> id_r = key, session_id = session_id_e ev, description = description',
                    prompt = [],
                    subagent_type = str_or (str_field (tool_input ev) ''subagent_type'') ''unknown'',
                    background = truthy (map_of (tool_input ev) ''run_in_background''),
                    status = Running, started_at = now, last_activity = now, ended_at = None,
                    duration_ms = None, error = None, output_preview = None,
                    output_file = None, parent_id = ''__user__'', usage = None,
                    agentId = None \<rparr>
                in (r', map_set m key r'))))"

definition isBgLaunch :: "AgentRecord \<Rightarrow> string option \<Rightarrow> bool" where
  "isBgLaunch record out =
     (background record \<and> (case out of None \<Rightarrow> True | Some s \<Rightarrow> async_launch_test s))"

text \<open>
  The assignments to the record in the two branches of the block: for a background launch
  the output file and the background agent id are read from the output; otherwise the
  record is finalized, and the wall-clock duration is replaced by the duration of the
  parsed usage block when it is below 1000 and the parsed duration is not zero.
\<close>

definition acknowledge_launch :: "string option \<Rightarrow> AgentRecord \<Rightarrow> AgentRecord" where
  "acknowledge_launch out record =
     (case out of
        None \<Rightarrow> record
      | Some s \<Rightarrow>
          (let ra = (case token_field ''output_file:'' s of
                       Some f \<Rightarrow> record\<lparr>output_file := Some f\<rparr>
                     | None \<Rightarrow> record)
           in case token_field ''agentId:'' s of
                Some a \<Rightarrow> ra\<lparr>agentId := Some a\<rparr>
              | None \<Rightarrow> ra))"

definition finalize_post :: "int \<Rightarrow> HookEvent \<Rightarrow> AgentRecord \<Rightarrow> AgentRecord" where
  "finalize_post now ev record =
     (let errored = isError (is_error ev) (tool_output ev);
          u = parseUsage (tool_output ev);
          wall = now - started_at record;
          r1 = record
            \<lparr>status := (if errored then Errored else Completed),
             ended_at := Some now,
             duration_ms := Some wall,
             error := (if errored then map_option (take 300) (tool_output ev) else None),
             output_preview := map_option (take 2000) (tool_output ev)\<rparr>;
          r2 = (case tool_output ev of
                  None \<Rightarrow> r1
                | Some s \<Rightarrow>
                    (case token_field ''output_file:'' s of
                       Some f \<Rightarrow> r1\<lparr>output_file := Some f\<rparr>
                     | None \<Rightarrow> r1));
          r3 = (case u of Some us \<Rightarrow> r2\<lparr>usage := Some us\<rparr> | None \<Rightarrow> r2)
      in case u of
           Some us \<Rightarrow>
             if wall < 1000 \<and> duration_ms_u us \<noteq> 0
             then r3\<lparr>duration_ms := Some (duration_ms_u us)\<rparr> else r3
         | None \<Rightarrow> r3)"

definition post_phase ::
  "config \<Rightarrow> int \<Rightarrow> HookEvent \<Rightarrow> string \<Rightarrow> string \<Rightarrow> state \<Rightarrow> state" where
  "post_phase cfg now ev description' key st =
     (let (record0, m1) = resolve_post now ev description' key (agents st);
          record = record0\<lparr>last_activity := now\<rparr>
      in if isBgLaunch record (tool_output ev)
         then scheduleAutoReset
                (st\<lparr>agents := map_set m1 key (acknowledge_launch (tool_output ev) record)\<rparr>)
         else
           (let r = finalize_post now ev record;
                st1 = setLastCompletionTime now (st\<lparr>agents := map_set m1 key r\<rparr>);
                st2 = addMessage cfg now key (parent_or_user r) ''Response'' st1;
                st3 = st2\<lparr>sessionUsage :=
                         count_completion (parseUsage (tool_output ev)) (sessionUsage st2)\<rparr>
            in scheduleAutoReset st3))"

text \<open>
  The handler after validation. \<open>makeKey\<close>, a SHA-1 digest of session and description
  cut to twelve hexadecimal digits, is a parameter.
\<close>

definition handle_event ::
  "(string \<Rightarrow> string \<Rightarrow> string) \<Rightarrow> config \<Rightarrow> int \<Rightarrow> HookEvent \<Rightarrow> state \<Rightarrow> state" where
  "handle_event makeKey cfg now ev st =
     (let st1 = setLastEventTime now st
      in if tool_name ev \<noteq> ''Task'' \<and> tool_name ev \<noteq> ''TaskOutput'' then st1
         else if tool_name ev = ''TaskOutput'' \<and> hook_phase ev = Post
         then taskOutput_post cfg now ev st1
         else
           (let description' = str_or (str_field (tool_input ev) ''description'')
                                 (str_or (tool_name ev) []);
                key = (case tool_use_id ev of
                         Some t \<Rightarrow> if t \<noteq> [] then t else makeKey (session_id_e ev) description'
                       | None \<Rightarrow> makeKey (session_id_e ev) description')
            in case hook_phase ev of
                 Pre \<Rightarrow> pre_phase cfg now ev description' key st1
               | Post \<Rightarrow> post_phase cfg now ev description' key st1))"

definition event_route ::
  "(string \<Rightarrow> string \<Rightarrow> string) \<Rightarrow> config \<Rightarrow> int \<Rightarrow> json \<Rightarrow> state \<Rightarrow> nat \<times> state" where
  "event_route makeKey cfg now body st =
     (case HookEventSchema_safeParse body of
        None \<Rightarrow> (400, st)
      | Some ev \<Rightarrow> (200, handle_event makeKey cfg now ev st))"

section \<open>Conditions used in the statements\<close>

text \<open>The records \<^verbatim>\<open>findDeepestRunningAgent\<close> chooses among.\<close>

definition deepest_cand :: "string \<Rightarrow> string \<Rightarrow> AgentRecord \<Rightarrow> bool" where
  "deepest_cand sessionId excludeKey r =
     (id_r r \<noteq> excludeKey \<and> session_id r = sessionId \<and> status r = Running)"

text \<open>The two tiers of \<^verbatim>\<open>findTaskOutputAgent\<close>.\<close>

definition taskid_match :: "string \<Rightarrow> AgentRecord \<Rightarrow> bool" where
  "taskid_match taskId r = (status r = Running \<and> background r \<and> agentId r = Some taskId)"

definition session_bg_cand :: "string \<Rightarrow> AgentRecord \<Rightarrow> bool" where
  "session_bg_cand sessionId r =
     (status r = Running \<and> background r \<and> session_id r = sessionId)"

text \<open>
  The number a message id is the decimal text of, and the condition that the ids of the
  log are the decimal texts of strictly increasing numbers, none above the counter.
\<close>

definition msg_num :: "Message \<Rightarrow> nat" where
  "msg_num m = nat (parseInt10 (id_m m))"

definition ids_increasing :: "state \<Rightarrow> bool" where
  "ids_increasing st =
     (sorted_wrt (<) (map msg_num (messages st)) \<and>
      list_all (\<lambda>m. id_m m = String_nat (msg_num m) \<and> msg_num m \<le> messageCounter st)
        (messages st))"

text \<open>The condition of the re-key scan on an entry of the registry.\<close>

definition rekey_match :: "string \<Rightarrow> string \<Rightarrow> string \<times> AgentRecord \<Rightarrow> bool" where
  "rekey_match sessionId description' e =
     (session_id (snd e) = sessionId \<and> description (snd e) = description' \<and>
      isMatchable (snd e))"

text \<open>
  The regular expression of \<^verbatim>\<open>isError\<close> read as a condition on the text: the text
  holds \<^verbatim>\<open>error\<close> not preceded by a word character and followed by a colon, a
  semicolon or white space, or one of \<^verbatim>\<open>failed\<close>, \<^verbatim>\<open>exception\<close> and
  \<^verbatim>\<open>traceback\<close> neither preceded nor followed by a word character. (\<open>prev_word\<close>
  says the same of the character before a start index as \<open>word_before\<close> of the text
  before it.)
\<close>

definition word_before :: "string \<Rightarrow> bool" where
  "word_before pre = (pre \<noteq> [] \<and> is_word (last pre))"

definition word_after :: "string \<Rightarrow> bool" where
  "word_after post = (post \<noteq> [] \<and> is_word (hd post))"

definition prev_word :: "char option \<Rightarrow> bool" where
  "prev_word p = (case p of None \<Rightarrow> False | Some c \<Rightarrow> is_word c)"

definition matches_error_regex :: "string \<Rightarrow> bool" where
  "matches_error_regex s =
     (\<exists>pre post.
        (s = pre @ ''error'' @ post \<and> \<not> word_before pre \<and> post \<noteq> [] \<and>
           (hd post = CHR '':'' \<or> hd post = CHR '';'' \<or> is_space (hd post))) \<or>
        (s = pre @ ''failed'' @ post \<and> \<not> word_before pre \<and> \<not> word_after post) \<or>
        (s = pre @ ''exception'' @ post \<and> \<not> word_before pre \<and> \<not> word_after post) \<or>
        (s = pre @ ''traceback'' @ post \<and> \<not> word_before pre \<and> \<not> word_after post))"

section \<open>Test fixture and sample data\<close>

text \<open>
  \<^verbatim>\<open>makeAgent\<close> of the test fixtures (src/src/__fixtures__/events.ts), with the clock
  reading as a parameter.
\<close>

definition makeAgent :: "int \<Rightarrow> AgentRecord" where
  "makeAgent now =
     \<lparr> id_r = ''test-agent-001'', session_id = ''session-abc'', description = ''Test agent'',
       prompt = ''Do something'', subagent_type = ''worker'', background = False,
       status = Running, started_at = now, last_activity = now, ended_at = None,
       duration_ms = None, error = None, output_preview = None, output_file = None,
       parent_id = ''__user__'', usage = None, agentId = None \<rparr>"

text \<open>A configuration with a cap of two messages, and a log that has reached the cap.\<close>

definition cap2 :: config where
  "cap2 = defaultConfig\<lparr>maxMessages := 2\<rparr>"

definition two_messages :: state where
  "two_messages =
     addMessage cap2 20 ''__user__'' ''a2'' ''Prompt''
       (addMessage cap2 10 ''__user__'' ''a1'' ''Prompt'' initial_state)"

text \<open>
  One finished agent with one message and controller activity at 90 s, the timeout
  pending; and the same with the agent still running.
\<close>

definition one_done :: state where
  "one_done =
     initial_state
       \<lparr>agents := [(''a1'', (makeAgent 1000)\<lparr>id_r := ''a1'', status := Completed,
                                              ended_at := Some 80000\<rparr>)],
        messages := [\<lparr> id_m = ''1'', from_id = ''__user__'', to_id = ''a1'',
                        type_m = ''Prompt'', timestamp = 1000 \<rparr>],
        messageCounter := 1,
        sessionUsage := \<lparr> total_tokens_s = 5000, tool_uses_s = 12, duration_ms_s = 30000,
                           agent_count = 1 \<rparr>,
        lastEventTime := 90000, lastCompletionTime := 80000, autoResetTimer := True\<rparr>"

definition one_running :: state where
  "one_running = one_done\<lparr>agents := [(''a1'', (makeAgent 1000)\<lparr>id_r := ''a1''\<rparr>)]\<rparr>"

text \<open>
  Rows of the agents table, one running and one completed, and the state a restart at
  time 100 loads from them.
\<close>

definition sample_rows :: "AgentRecord list" where
  "sample_rows =
     [(makeAgent 5)\<lparr>id_r := ''a1''\<rparr>,
      (makeAgent 5)\<lparr>id_r := ''a2'', status := Completed, ended_at := Some 7\<rparr>]"

definition after_restart :: state where
  "after_restart = loadFromDb 100 sample_rows [] None None initial_state"

text \<open>
  A stand-in for \<^verbatim>\<open>makeKey\<close> (the sample events carry a tool-use id, so the digest
  is never asked for), and the end-to-end scenario of the specification: a pre event for
  session \<^verbatim>\<open>s1\<close> and description \<^verbatim>\<open>d1\<close> at 1 s, its post event with output
  \<^verbatim>\<open>done\<close> at 5 s, and the same post event once more at 9 s.
\<close>

definition sampleKey :: "string \<Rightarrow> string \<Rightarrow> string" where
  "sampleKey s d = s @ '':'' @ d"

definition pre_d1 :: HookEvent where
  "pre_d1 =
     \<lparr> session_id_e = ''s1'', hook_phase = Pre, tool_name = ''Task'',
       tool_use_id = Some ''k1'',
       tool_input = [(''description'', JStr ''d1''), (''subagent_type'', JStr ''worker'')],
       tool_output = None, is_error = None \<rparr>"

definition post_done :: HookEvent where
  "post_done = pre_d1\<lparr>hook_phase := Post, tool_output := Some ''done''\<rparr>"

definition after_pre :: state where
  "after_pre = handle_event sampleKey defaultConfig 1000 pre_d1 initial_state"

definition after_post :: state where
  "after_post = handle_event sampleKey defaultConfig 5000 post_done after_pre"

definition after_replay :: state where
  "after_replay = handle_event sampleKey defaultConfig 9000 post_done after_post"

text \<open>
  A post event whose output reports a duration; a registry with one running background
  agent whose background id is \<^verbatim>\<open>a1\<close>, and a TaskOutput event for that id reporting a
  duration.
\<close>

definition post_usage :: HookEvent where
  "post_usage = pre_d1\<lparr>hook_phase := Post, tool_output := Some ''duration_ms: 30000''\<rparr>"

definition bg_running :: state where
  "bg_running =
     initial_state
       \<lparr>agents := [(''k1'', (makeAgent 1000)\<lparr>id_r := ''k1'', background := True,
                                              agentId := Some ''a1''\<rparr>)]\<rparr>"

definition task_output_a1 :: HookEvent where
  "task_output_a1 =
     \<lparr> session_id_e = ''session-abc'', hook_phase = Post, tool_name = ''TaskOutput'',
       tool_use_id = None, tool_input = [(''task_id'', JStr ''a1'')],
       tool_output = Some ''duration_ms: 30000'', is_error = None \<rparr>"

text \<open>
  A post event and a \<^verbatim>\<open>/complete\<close> body for the agent of the scenario, neither with
  an \<^verbatim>\<open>is_error\<close> flag, whose text reports success and holds the word "failed".
\<close>

definition post_failed :: HookEvent where
  "post_failed = pre_d1\<lparr>hook_phase := Post, tool_output := Some ''0 failed''\<rparr>"

definition complete_failed :: json where
  "complete_failed = JObj [(''tool_use_id'', JStr ''k1''), (''result'', JStr ''0 failed'')]"

text \<open>
  Two pre events of the scenario's session and description under the keys \<^verbatim>\<open>kA\<close> and
  \<^verbatim>\<open>kB\<close> and the state after them, a post event for that session and description
  under the key \<^verbatim>\<open>kC\<close>, and a post event under \<^verbatim>\<open>kC\<close> for the session and
  description of the fixture's agent.
\<close>

definition pre_kA :: HookEvent where
  "pre_kA = pre_d1\<lparr>tool_use_id := Some ''kA''\<rparr>"

definition pre_kB :: HookEvent where
  "pre_kB = pre_d1\<lparr>tool_use_id := Some ''kB''\<rparr>"

definition post_kC :: HookEvent where
  "post_kC = post_done\<lparr>tool_use_id := Some ''kC''\<rparr>"

definition two_same_description :: state where
  "two_same_description =
     handle_event sampleKey defaultConfig 2000 pre_kB
       (handle_event sampleKey defaultConfig 1000 pre_kA initial_state)"

definition post_test_agent :: HookEvent where
  "post_test_agent =
     \<lparr> session_id_e = ''session-abc'', hook_phase = Post, tool_name = ''Task'',
       tool_use_id = Some ''kC'', tool_input = [(''description'', JStr ''Test agent'')],
       tool_output = Some ''done'', is_error = None \<rparr>"

section \<open>Matching engine: the selection loops\<close>

lemma deepest_loop_None:
  "deepest_loop sid ex best es = None \<longleftrightarrow>
     best = None \<and> (\<forall>e \<in> set es. \<not> deepest_cand sid ex (snd e))"
  by (induction es arbitrary: best) (auto simp: deepest_cand_def split: option.splits)

lemma deepest_loop_Some:
  "deepest_loop sid ex best es = Some r \<Longrightarrow>
     (best = Some r \<or> (r \<in> snd ` set es \<and> deepest_cand sid ex r)) \<and>
     (\<forall>e \<in> set es. deepest_cand sid ex (snd e) \<longrightarrow> started_at (snd e) \<le> started_at r) \<and>
     (\<forall>b. best = Some b \<longrightarrow> started_at b \<le> started_at r)"
proof (induction es arbitrary: best)
  case Nil
  then show ?case by simp
next
  case (Cons e es)
  show ?case
  proof (cases "deepest_cand sid ex (snd e)")
    case False
    then have "deepest_loop sid ex best es = Some r"
      using Cons.prems by (auto simp: deepest_cand_def split: if_splits)
    from Cons.IH[OF this] False show ?thesis by auto
  next
    case True
    show ?thesis
    proof (cases "case best of None \<Rightarrow> True | Some b \<Rightarrow> started_at (snd e) > started_at b")
      case T2: True
      then have "deepest_loop sid ex (Some (snd e)) es = Some r"
        using Cons.prems True by (auto simp: deepest_cand_def)
      from Cons.IH[OF this] True T2 show ?thesis
        by (auto split: option.splits)
    next
      case F2: False
      then have "deepest_loop sid ex best es = Some r"
        using Cons.prems True by (auto simp: deepest_cand_def)
      from Cons.IH[OF this] True F2 show ?thesis
        by (auto split: option.splits)
    qed
  qed
qed

text \<open>
  Claim C8. \<^verbatim>\<open>findDeepestRunningAgent(agents, sessionId, excludeKey)\<close> returns none
  exactly when no record is running in the session with an id other than the excluded
  key; otherwise it returns such a record, and no other such record started later.
\<close>

theorem findDeepestRunningAgent_latest:
  "(findDeepestRunningAgent reg sessionId excludeKey = None \<longleftrightarrow>
      (\<forall>e \<in> set reg. \<not> deepest_cand sessionId excludeKey (snd e))) \<and>
   (\<forall>r. findDeepestRunningAgent reg sessionId excludeKey = Some r \<longrightarrow>
      r \<in> snd ` set reg \<and> deepest_cand sessionId excludeKey r \<and>
      (\<forall>e \<in> set reg. deepest_cand sessionId excludeKey (snd e) \<longrightarrow>
         started_at (snd e) \<le> started_at r))"
  unfolding findDeepestRunningAgent_def
  using deepest_loop_None[of sessionId excludeKey None reg]
        deepest_loop_Some[of sessionId excludeKey None reg]
  by auto

text \<open>
  The test "finds most recently started running agent" of matching.test.ts, read through
  the theorem: the newer of two running records is returned, and a registry holding only
  the excluded record gives none.
\<close>

theorem findDeepestRunningAgent_latest_witness:
  "findDeepestRunningAgent
     [(''agent-1'', (makeAgent 0)\<lparr>id_r := ''agent-1'', started_at := 1000\<rparr>),
      (''agent-2'', (makeAgent 0)\<lparr>id_r := ''agent-2'', started_at := 2000\<rparr>)]
     ''session-abc'' ''exclude-key''
     = Some ((makeAgent 0)\<lparr>id_r := ''agent-2'', started_at := 2000\<rparr>) \<and>
   deepest_cand ''session-abc'' ''exclude-key''
     ((makeAgent 0)\<lparr>id_r := ''agent-1'', started_at := 1000\<rparr>) \<and>
   findDeepestRunningAgent [(''agent-1'', (makeAgent 0)\<lparr>id_r := ''agent-1''\<rparr>)]
     ''session-abc'' ''agent-1'' = None"
  using findDeepestRunningAgent_latest
          [of "[(''agent-1'', (makeAgent 0)\<lparr>id_r := ''agent-1'', started_at := 1000\<rparr>),
                (''agent-2'', (makeAgent 0)\<lparr>id_r := ''agent-2'', started_at := 2000\<rparr>)]"
              "''session-abc''" "''exclude-key''"]
        findDeepestRunningAgent_latest
          [of "[(''agent-1'', (makeAgent 0)\<lparr>id_r := ''agent-1''\<rparr>)]"
              "''session-abc''" "''agent-1''"]
  by (simp add: findDeepestRunningAgent_def deepest_cand_def makeAgent_def)

lemma oldest_loop_keeps: "\<exists>r. oldest_loop sid (Some a) es = Some r"
  by (induction es arbitrary: a) auto

lemma oldest_loop_None:
  "oldest_loop sid acc es = None \<longleftrightarrow>
     acc = None \<and> (\<forall>e \<in> set es. \<not> session_bg_cand sid (snd e))"
proof (cases acc)
  case (Some a)
  then show ?thesis using oldest_loop_keeps[of sid a es] by auto
next
  case None
  have "oldest_loop sid None es = None \<longleftrightarrow> (\<forall>e \<in> set es. \<not> session_bg_cand sid (snd e))"
  proof (induction es)
    case Nil
    then show ?case by simp
  next
    case (Cons e es)
    then show ?case using oldest_loop_keeps[of sid e es]
      by (cases "session_bg_cand sid (snd e)") (auto simp: session_bg_cand_def)
  qed
  with None show ?thesis by simp
qed

lemma oldest_loop_Some:
  "oldest_loop sid acc es = Some r \<Longrightarrow>
     (acc = Some r \<or> (r \<in> set es \<and> session_bg_cand sid (snd r))) \<and>
     (\<forall>e \<in> set es. session_bg_cand sid (snd e) \<longrightarrow> started_at (snd r) \<le> started_at (snd e)) \<and>
     (\<forall>b. acc = Some b \<longrightarrow> started_at (snd r) \<le> started_at (snd b))"
proof (induction es arbitrary: acc)
  case Nil
  then show ?case by simp
next
  case (Cons e es)
  show ?case
  proof (cases "session_bg_cand sid (snd e)")
    case False
    then have "oldest_loop sid acc es = Some r"
      using Cons.prems by (auto simp: session_bg_cand_def split: if_splits)
    from Cons.IH[OF this] False show ?thesis by auto
  next
    case True
    show ?thesis
    proof (cases "case acc of None \<Rightarrow> True | Some b \<Rightarrow> started_at (snd e) < started_at (snd b)")
      case T2: True
      then have "oldest_loop sid (Some e) es = Some r"
        using Cons.prems True by (auto simp: session_bg_cand_def)
      from Cons.IH[OF this] True T2 show ?thesis
        by (auto split: option.splits)
    next
      case F2: False
      then have "oldest_loop sid acc es = Some r"
        using Cons.prems True by (auto simp: session_bg_cand_def)
      from Cons.IH[OF this] True F2 show ?thesis
        by (auto split: option.splits)
    qed
  qed
qed

lemma find_first_hit:
  "(\<exists>e \<in> set es. P e) \<Longrightarrow> \<exists>e. find P es = Some e \<and> e \<in> set es \<and> P e"
  by (induction es) auto

lemma find_no_hit: "\<not> (\<exists>e \<in> set es. P e) \<Longrightarrow> find P es = None"
  by (induction es) auto

text \<open>
  Claim C4. \<^verbatim>\<open>findTaskOutputAgent(agents, taskId, sessionId)\<close>: when some running
  background record has \<^verbatim>\<open>agentId\<close> equal to the task id, such a record is returned;
  otherwise, when the session has running background records, one of them is returned and
  none of them started earlier; otherwise the result is none.
\<close>

theorem findTaskOutputAgent_tiers:
  "((\<exists>e \<in> set reg. taskid_match taskId (snd e)) \<longrightarrow>
      (\<exists>e. findTaskOutputAgent reg taskId sessionId = Some e \<and> e \<in> set reg \<and>
           taskid_match taskId (snd e))) \<and>
   (\<not> (\<exists>e \<in> set reg. taskid_match taskId (snd e)) \<longrightarrow>
      ((\<exists>e \<in> set reg. session_bg_cand sessionId (snd e)) \<longrightarrow>
         (\<exists>e. findTaskOutputAgent reg taskId sessionId = Some e \<and> e \<in> set reg \<and>
              session_bg_cand sessionId (snd e) \<and>
              (\<forall>c \<in> set reg. session_bg_cand sessionId (snd c) \<longrightarrow>
                 started_at (snd e) \<le> started_at (snd c)))) \<and>
      (\<not> (\<exists>e \<in> set reg. session_bg_cand sessionId (snd e)) \<longrightarrow>
         findTaskOutputAgent reg taskId sessionId = None))"
proof (intro conjI impI)
  assume "\<exists>e \<in> set reg. taskid_match taskId (snd e)"
  from find_first_hit[of reg "\<lambda>e. taskid_match taskId (snd e)", OF this]
  show "\<exists>e. findTaskOutputAgent reg taskId sessionId = Some e \<and> e \<in> set reg \<and>
           taskid_match taskId (snd e)"
    by (auto simp: findTaskOutputAgent_def taskid_match_def)
next
  assume no: "\<not> (\<exists>e \<in> set reg. taskid_match taskId (snd e))"
    and ex: "\<exists>e \<in> set reg. session_bg_cand sessionId (snd e)"
  have eq: "findTaskOutputAgent reg taskId sessionId = oldest_loop sessionId None reg"
    using find_no_hit[of reg "\<lambda>e. taskid_match taskId (snd e)", OF no]
    by (simp add: findTaskOutputAgent_def taskid_match_def)
  from ex oldest_loop_None[of sessionId None reg]
  obtain r where r: "oldest_loop sessionId None reg = Some r" by auto
  from oldest_loop_Some[OF r] eq r
  show "\<exists>e. findTaskOutputAgent reg taskId sessionId = Some e \<and> e \<in> set reg \<and>
              session_bg_cand sessionId (snd e) \<and>
              (\<forall>c \<in> set reg. session_bg_cand sessionId (snd c) \<longrightarrow>
                 started_at (snd e) \<le> started_at (snd c))"
    by auto
next
  assume no: "\<not> (\<exists>e \<in> set reg. taskid_match taskId (snd e))"
    and nex: "\<not> (\<exists>e \<in> set reg. session_bg_cand sessionId (snd e))"
  have eq: "findTaskOutputAgent reg taskId sessionId = oldest_loop sessionId None reg"
    using find_no_hit[of reg "\<lambda>e. taskid_match taskId (snd e)", OF no]
    by (simp add: findTaskOutputAgent_def taskid_match_def)
  from nex oldest_loop_None[of sessionId None reg] eq
  show "findTaskOutputAgent reg taskId sessionId = None" by auto
qed

text \<open>
  The three cases on the registries of matching.test.ts: a record carrying the task id is
  returned although an older background record exists; with an unknown task id the older
  of the two background records is returned; a registry whose only record is not a
  background one gives none.
\<close>

theorem findTaskOutputAgent_tiers_witness:
  "findTaskOutputAgent
     [(''key1'', (makeAgent 0)\<lparr>id_r := ''key1'', background := True, started_at := 1000\<rparr>),
      (''key2'', (makeAgent 0)\<lparr>id_r := ''key2'', background := True, started_at := 2000,
                                agentId := Some ''task_001''\<rparr>)]
     ''task_001'' ''session-abc''
     = Some (''key2'', (makeAgent 0)\<lparr>id_r := ''key2'', background := True, started_at := 2000,
                                      agentId := Some ''task_001''\<rparr>) \<and>
   findTaskOutputAgent
     [(''key2'', (makeAgent 0)\<lparr>id_r := ''key2'', background := True, started_at := 2000\<rparr>),
      (''key1'', (makeAgent 0)\<lparr>id_r := ''key1'', background := True, started_at := 1000\<rparr>)]
     ''nonexistent'' ''session-abc''
     = Some (''key1'', (makeAgent 0)\<lparr>id_r := ''key1'', background := True, started_at := 1000\<rparr>) \<and>
   findTaskOutputAgent [(''key1'', (makeAgent 0)\<lparr>id_r := ''key1''\<rparr>)]
     ''nonexistent'' ''session-abc'' = None"
  using findTaskOutputAgent_tiers
          [of "[(''key1'', (makeAgent 0)\<lparr>id_r := ''key1'', background := True, started_at := 1000\<rparr>),
                (''key2'', (makeAgent 0)\<lparr>id_r := ''key2'', background := True, started_at := 2000,
                                          agentId := Some ''task_001''\<rparr>)]"
              "''task_001''" "''session-abc''"]
        findTaskOutputAgent_tiers
          [of "[(''key2'', (makeAgent 0)\<lparr>id_r := ''key2'', background := True, started_at := 2000\<rparr>),
                (''key1'', (makeAgent 0)\<lparr>id_r := ''key1'', background := True, started_at := 1000\<rparr>)]"
              "''nonexistent''" "''session-abc''"]
        findTaskOutputAgent_tiers
          [of "[(''key1'', (makeAgent 0)\<lparr>id_r := ''key1''\<rparr>)]" "''nonexistent''" "''session-abc''"]
  by (simp add: findTaskOutputAgent_def taskid_match_def session_bg_cand_def makeAgent_def)

section \<open>Message log\<close>

lemma code_char_of_digit: "d < 10 \<Longrightarrow> code (char_of (48 + d)) = 48 + d"
  by (simp add: code_def)

lemma parseInt10_snoc: "parseInt10 (ds @ [c]) = 10 * parseInt10 ds + int (code c - 48)"
  by (simp add: parseInt10_def)

lemma parseInt10_String_nat: "parseInt10 (String_nat n) = int n"
proof (induction n rule: String_nat.induct)
  case (1 n)
  show ?case
  proof (cases "n < 10")
    case True
    then show ?thesis
      by (subst String_nat.simps) (simp add: parseInt10_def code_char_of_digit)
  next
    case False
    have d: "n mod 10 < 10" by simp
    from False have "String_nat n = String_nat (n div 10) @ [char_of (48 + n mod 10)]"
      by (subst String_nat.simps) simp
    then have "parseInt10 (String_nat n) = 10 * int (n div 10) + int (n mod 10)"
      using "1.IH"[OF False] code_char_of_digit[OF d] by (simp add: parseInt10_snoc)
    then show ?thesis by (simp add: zmod_int zdiv_int)
  qed
qed

lemma String_nat_inj: "String_nat a = String_nat b \<Longrightarrow> a = b"
  by (metis parseInt10_String_nat of_nat_eq_iff)

lemma addMessage_messages:
  "messages (addMessage cfg now f t ty st) =
     drop (length (messages st) + 1 - maxMessages cfg)
       (messages st @ [\<lparr> id_m = String_nat (messageCounter st + 1), from_id = f, to_id = t,
                          type_m = ty, timestamp = now \<rparr>])"
  unfolding addMessage_def Let_def by simp

lemma addMessage_counter:
  "messageCounter (addMessage cfg now f t ty st) = messageCounter st + 1"
  unfolding addMessage_def Let_def by simp

lemma addMessage_length:
  "length (messages (addMessage cfg now f t ty st)) \<le> maxMessages cfg"
  unfolding addMessage_messages by simp

lemma ids_increasing_addMessage:
  assumes "ids_increasing st"
  shows "ids_increasing (addMessage cfg now f t ty st)"
proof -
  let ?c = "messageCounter st + 1"
  let ?e = "\<lparr> id_m = String_nat ?c, from_id = f, to_id = t, type_m = ty, timestamp = now \<rparr>"
  let ?p = "messages st @ [?e]"
  have n: "msg_num ?e = ?c" by (simp add: msg_num_def parseInt10_String_nat)
  from assms have s: "sorted_wrt (<) (map msg_num (messages st))"
    and a: "\<forall>m \<in> set (messages st). id_m m = String_nat (msg_num m) \<and> msg_num m \<le> messageCounter st"
    by (simp_all add: ids_increasing_def list_all_iff)
  have sp: "sorted_wrt (<) (map msg_num ?p)"
    using s a n by (auto simp: sorted_wrt_append)
  have ap: "\<forall>m \<in> set ?p. id_m m = String_nat (msg_num m) \<and> msg_num m \<le> ?c"
    using a n by auto
  have sd: "sorted_wrt (<) (map msg_num (drop k ?p))" for k
    using sorted_wrt_drop[OF sp, of k] by (simp only: drop_map)
  have ad: "\<forall>m \<in> set (drop k ?p). id_m m = String_nat (msg_num m) \<and> msg_num m \<le> ?c" for k
    using ap in_set_dropD by fast
  show ?thesis
    unfolding ids_increasing_def list_all_iff addMessage_messages addMessage_counter
    using sd ad by blast
qed

text \<open>
  Claim C6. The default cap is 200. After \<^verbatim>\<open>addMessage\<close> the log is no longer than
  the configured cap; it is the old log
  with the new entry appended, less as many entries at the front as the cap requires; the
  counter is one higher whether or not entries were dropped, and the new id is its decimal
  text; when the ids of the log were the decimal texts of strictly increasing numbers up to
  the counter, they still are; and no other number has the decimal text of the new id.
\<close>

theorem addMessage_bounded_fifo_monotonic:
  "maxMessages defaultConfig = 200 \<and>
   length (messages (addMessage cfg now f t ty st)) \<le> maxMessages cfg \<and>
   messages (addMessage cfg now f t ty st) =
     drop (length (messages st) + 1 - maxMessages cfg)
       (messages st @ [\<lparr> id_m = String_nat (messageCounter st + 1), from_id = f, to_id = t,
                          type_m = ty, timestamp = now \<rparr>]) \<and>
   messageCounter (addMessage cfg now f t ty st) = messageCounter st + 1 \<and>
   (ids_increasing st \<longrightarrow> ids_increasing (addMessage cfg now f t ty st)) \<and>
   (\<forall>n. String_nat n = String_nat (messageCounter st + 1) \<longrightarrow> n = messageCounter st + 1)"
proof (intro conjI impI allI)
  show "maxMessages defaultConfig = 200"
    by (simp add: defaultConfig_def)
  show "length (messages (addMessage cfg now f t ty st)) \<le> maxMessages cfg"
    by (rule addMessage_length)
  show "messages (addMessage cfg now f t ty st) =
     drop (length (messages st) + 1 - maxMessages cfg)
       (messages st @ [\<lparr> id_m = String_nat (messageCounter st + 1), from_id = f, to_id = t,
                          type_m = ty, timestamp = now \<rparr>])"
    by (rule addMessage_messages)
  show "messageCounter (addMessage cfg now f t ty st) = messageCounter st + 1"
    by (rule addMessage_counter)
  show "ids_increasing (addMessage cfg now f t ty st)" if "ids_increasing st"
    using that by (rule ids_increasing_addMessage)
  show "n = messageCounter st + 1" if "String_nat n = String_nat (messageCounter st + 1)" for n
    using that by (rule String_nat_inj)
qed

text \<open>
  With a cap of two and a log holding the messages 1 and 2, a third message leaves the
  messages 2 and 3: the oldest entry went, and the id 1 was not given again.
\<close>

theorem addMessage_bounded_fifo_monotonic_witness:
  "ids_increasing two_messages \<and>
   map id_m (messages two_messages) = [''1'', ''2''] \<and>
   ids_increasing (addMessage cap2 30 ''a1'' ''__user__'' ''Response'' two_messages) \<and>
   map id_m (messages (addMessage cap2 30 ''a1'' ''__user__'' ''Response'' two_messages))
     = [''2'', ''3''] \<and>
   messageCounter (addMessage cap2 30 ''a1'' ''__user__'' ''Response'' two_messages) = 3"
proof -
  have h: "ids_increasing two_messages" by code_simp
  have e1: "map id_m (messages two_messages) = [''1'', ''2'']" by code_simp
  have e2: "map id_m (messages (addMessage cap2 30 ''a1'' ''__user__'' ''Response'' two_messages))
     = [''2'', ''3'']" by code_simp
  have e3: "messageCounter two_messages = 2" by code_simp
  from addMessage_bounded_fifo_monotonic
         [of cap2 30 "''a1''" "''__user__''" "''Response''" two_messages] h e1 e2 e3
  show ?thesis by simp
qed

section \<open>Registry operations\<close>

lemma map_get_map_set_same: "map_get (map_set m k v) k = Some v"
  by (induction m k v rule: map_set.induct) (auto simp: map_get_def)

lemma map_get_map_set_other: "k' \<noteq> k \<Longrightarrow> map_get (map_set m k v) k' = map_get m k'"
  by (induction m k v rule: map_set.induct) (auto simp: map_get_def)

lemma map_get_map_delete_same: "map_get (map_delete m k) k = None"
  by (induction m) (auto simp: map_get_def map_delete_def)

lemma map_get_map_values:
  "map_get (map (\<lambda>e. (fst e, g (snd e))) m) k = map_option g (map_get m k)"
  by (induction m) (auto simp: map_get_def)

section \<open>Restart recovery\<close>

lemma load_fold_other:
  "k \<notin> id_r ` set xs \<Longrightarrow>
   map_get (foldl (\<lambda>m agent. map_set m (id_r agent) agent) m xs) k = map_get m k"
  by (induction xs arbitrary: m) (auto simp: map_get_map_set_other)

lemma load_fold_member:
  "a \<in> set xs \<Longrightarrow> distinct (map id_r xs) \<Longrightarrow>
   map_get (foldl (\<lambda>m agent. map_set m (id_r agent) agent) m xs) (id_r a) = Some a"
proof (induction xs arbitrary: m)
  case Nil
  then show ?case by simp
next
  case (Cons x xs)
  show ?case
  proof (cases "a = x")
    case True
    with Cons.prems have "id_r a \<notin> id_r ` set xs" by auto
    from load_fold_other[OF this] True show ?thesis
      by (simp add: map_get_map_set_same)
  next
    case False
    with Cons show ?thesis by auto
  qed
qed

lemma restart_mark_not_running: "status (restart_mark now r) \<noteq> Running"
  by (simp add: restart_mark_def)

text \<open>
  Claim C9. After \<^verbatim>\<open>loadFromDb\<close> no record of the registry is running; and, the ids
  of the stored rows being distinct (\<^verbatim>\<open>id\<close> is the primary key of the table), every
  stored row is in the registry under its id, a row that was running as an errored record
  with the message "Server restarted while agent was running" and the load time as
  \<^verbatim>\<open>ended_at\<close>, any other row as it was stored.
\<close>

theorem loadFromDb_no_running:
  "(\<forall>e \<in> set (agents (loadFromDb now dbAgents dbMessages savedCounter savedUsage st)).
      status (snd e) \<noteq> Running) \<and>
   (distinct (map id_r dbAgents) \<longrightarrow>
      (\<forall>a \<in> set dbAgents.
         map_get (agents (loadFromDb now dbAgents dbMessages savedCounter savedUsage st)) (id_r a)
           = Some (if status a = Running
                   then a\<lparr>status := Errored,
                          error := Some ''Server restarted while agent was running'',
                          ended_at := Some now\<rparr>
                   else a)))"
proof (intro conjI impI ballI)
  fix e
  assume "e \<in> set (agents (loadFromDb now dbAgents dbMessages savedCounter savedUsage st))"
  then show "status (snd e) \<noteq> Running"
    by (auto simp: loadFromDb_def Let_def restart_mark_not_running)
next
  fix a
  assume d: "distinct (map id_r dbAgents)" and a: "a \<in> set dbAgents"
  have "map_get (agents (loadFromDb now dbAgents dbMessages savedCounter savedUsage st)) (id_r a)
          = Some (restart_mark now a)"
    by (simp add: loadFromDb_def Let_def map_get_map_values load_fold_member[OF a d])
  then show "map_get (agents (loadFromDb now dbAgents dbMessages savedCounter savedUsage st)) (id_r a)
           = Some (if status a = Running
                   then a\<lparr>status := Errored,
                          error := Some ''Server restarted while agent was running'',
                          ended_at := Some now\<rparr>
                   else a)"
    by (simp add: restart_mark_def)
qed

text \<open>
  Two stored rows loaded into the empty state at time 100: the running one comes out
  errored with the message and \<^verbatim>\<open>ended_at\<close> 100, the completed one unchanged, and the
  statuses of the registry are errored and completed.
\<close>

theorem loadFromDb_no_running_witness:
  "distinct (map id_r sample_rows) \<and>
   map_get (agents (loadFromDb 100 sample_rows [] None None initial_state)) ''a1''
     = Some ((makeAgent 5)\<lparr>id_r := ''a1'', status := Errored,
                             error := Some ''Server restarted while agent was running'',
                             ended_at := Some 100\<rparr>) \<and>
   map_get (agents (loadFromDb 100 sample_rows [] None None initial_state)) ''a2''
     = Some ((makeAgent 5)\<lparr>id_r := ''a2'', status := Completed, ended_at := Some 7\<rparr>) \<and>
   map (\<lambda>e. status (snd e)) (agents (loadFromDb 100 sample_rows [] None None initial_state))
     = [Errored, Completed]"
proof -
  have d: "distinct (map id_r sample_rows)"
    by (simp add: sample_rows_def makeAgent_def)
  have s: "map (\<lambda>e. status (snd e)) (agents (loadFromDb 100 sample_rows [] None None initial_state))
     = [Errored, Completed]"
    by (simp add: loadFromDb_def sample_rows_def makeAgent_def initial_state_def restart_mark_def)
  from loadFromDb_no_running[of 100 sample_rows "[]" None None initial_state] d s
  show ?thesis by (simp add: sample_rows_def makeAgent_def)
qed

section \<open>Auto-reset\<close>

text \<open>
  Claim C3. When the timeout fires and a record is running, nothing changes but the
  timeout, which is no longer pending. When none is running and the last event is less
  than \<^verbatim>\<open>bossActiveMs\<close> (30 s by default) old, nothing changes but the timeout, which
  \<^verbatim>\<open>scheduleAutoReset\<close> arms again (it arms under the condition of the last part: a
  registry that is not empty). Otherwise the registry, the log and the session counters
  are cleared. \<^verbatim>\<open>scheduleAutoReset\<close> leaves the timeout pending exactly when no record
  is running and the registry is not empty.
\<close>

theorem autoReset_timer_fires:
  "bossActiveMs defaultConfig = 30000 \<and>
   (hasRunning (agents st) \<longrightarrow>
      autoResetFire cfg now st = st\<lparr>autoResetTimer := False\<rparr>) \<and>
   (\<not> hasRunning (agents st) \<and> now - lastEventTime st < bossActiveMs cfg \<longrightarrow>
      autoResetFire cfg now st = st\<lparr>autoResetTimer := (agents st \<noteq> [])\<rparr>) \<and>
   (\<not> hasRunning (agents st) \<and> \<not> now - lastEventTime st < bossActiveMs cfg \<longrightarrow>
      agents (autoResetFire cfg now st) = [] \<and>
      messages (autoResetFire cfg now st) = [] \<and>
      sessionUsage (autoResetFire cfg now st) =
        \<lparr> total_tokens_s = 0, tool_uses_s = 0, duration_ms_s = 0, agent_count = 0 \<rparr> \<and>
      \<not> autoResetTimer (autoResetFire cfg now st)) \<and>
   (autoResetTimer (scheduleAutoReset st) \<longleftrightarrow> \<not> hasRunning (agents st) \<and> agents st \<noteq> [])"
  by (auto simp: autoResetFire_def scheduleAutoReset_def resetState_def Let_def defaultConfig_def)

text \<open>
  With the default window of 30 s and the last event at 90 s: a running agent stops the
  reset; with the agent finished, firing at 100 s arms the timeout again and keeps the
  state, and firing at 200 s clears registry, log and counters.
\<close>

theorem autoReset_timer_fires_witness:
  "hasRunning (agents one_running) \<and>
   autoResetFire defaultConfig 100000 one_running = one_running\<lparr>autoResetTimer := False\<rparr> \<and>
   \<not> hasRunning (agents one_done) \<and>
   autoResetFire defaultConfig 100000 one_done = one_done \<and>
   agents (autoResetFire defaultConfig 200000 one_done) = [] \<and>
   messages (autoResetFire defaultConfig 200000 one_done) = [] \<and>
   agent_count (sessionUsage (autoResetFire defaultConfig 200000 one_done)) = 0 \<and>
   autoResetTimer (scheduleAutoReset one_done)"
proof -
  have r: "hasRunning (agents one_running)"
    by (simp add: hasRunning_def one_running_def one_done_def makeAgent_def)
  have d: "\<not> hasRunning (agents one_done)" "agents one_done \<noteq> []"
    "lastEventTime one_done = 90000" "autoResetTimer one_done"
    by (simp_all add: hasRunning_def one_done_def makeAgent_def initial_state_def)
  have c: "bossActiveMs defaultConfig = 30000" by (simp add: defaultConfig_def)
  from autoReset_timer_fires[of one_running defaultConfig 100000]
       autoReset_timer_fires[of one_done defaultConfig 100000]
       autoReset_timer_fires[of one_done defaultConfig 200000]
       r d c
  show ?thesis by simp
qed

section \<open>Hook events: the record an event leaves\<close>

lemma agents_scheduleAutoReset: "agents (scheduleAutoReset st) = agents st"
  by (simp add: scheduleAutoReset_def Let_def)

lemma agents_addMessage: "agents (addMessage cfg now f t ty st) = agents st"
  by (simp add: addMessage_def Let_def)

lemma agents_setLastCompletionTime: "agents (setLastCompletionTime t st) = agents st"
  by (simp add: setLastCompletionTime_def)

lemma post_phase_agents:
  "agents (post_phase cfg now ev d key st) =
     map_set (snd (resolve_post now ev d key (agents st))) key
       (if isBgLaunch (fst (resolve_post now ev d key (agents st))) (tool_output ev)
        then acknowledge_launch (tool_output ev)
               ((fst (resolve_post now ev d key (agents st)))\<lparr>last_activity := now\<rparr>)
        else finalize_post now ev
               ((fst (resolve_post now ev d key (agents st)))\<lparr>last_activity := now\<rparr>))"
  by (simp add: post_phase_def Let_def isBgLaunch_def agents_scheduleAutoReset agents_addMessage
        agents_setLastCompletionTime split: prod.splits)

lemma post_phase_record:
  "map_get (agents (post_phase cfg now ev d key st)) key =
     Some (if isBgLaunch (fst (resolve_post now ev d key (agents st))) (tool_output ev)
           then acknowledge_launch (tool_output ev)
                  ((fst (resolve_post now ev d key (agents st)))\<lparr>last_activity := now\<rparr>)
           else finalize_post now ev
                  ((fst (resolve_post now ev d key (agents st)))\<lparr>last_activity := now\<rparr>))"
  unfolding post_phase_agents by (rule map_get_map_set_same)

lemma finalize_post_status:
  "status (finalize_post now ev r) =
     (if isError (is_error ev) (tool_output ev) then Errored else Completed)"
  by (simp add: finalize_post_def Let_def split: option.splits)

lemma finalize_post_ended_at: "ended_at (finalize_post now ev r) = Some now"
  by (simp add: finalize_post_def Let_def split: option.splits)

lemma finalize_post_id: "id_r (finalize_post now ev r) = id_r r"
  by (simp add: finalize_post_def Let_def split: option.splits)

lemma finalize_post_duration:
  "duration_ms (finalize_post now ev r) =
     Some (case parseUsage (tool_output ev) of
             None \<Rightarrow> now - started_at r
           | Some us \<Rightarrow>
               if now - started_at r < 1000 \<and> duration_ms_u us \<noteq> 0 then duration_ms_u us
               else now - started_at r)"
  by (simp add: finalize_post_def Let_def split: option.splits)

lemma acknowledge_launch_status: "status (acknowledge_launch out r) = status r"
  by (simp add: acknowledge_launch_def Let_def split: option.splits)

lemma acknowledge_launch_id: "id_r (acknowledge_launch out r) = id_r r"
  by (simp add: acknowledge_launch_def Let_def split: option.splits)

lemma finalize_taskOutput_status:
  "status (finalize_taskOutput now ev r) =
     (if isError (is_error ev) (tool_output ev) then Errored else Completed)"
  by (simp add: finalize_taskOutput_def Let_def split: option.splits)

lemma finalize_taskOutput_ended_at: "ended_at (finalize_taskOutput now ev r) = Some now"
  by (simp add: finalize_taskOutput_def Let_def split: option.splits)

lemma finalize_taskOutput_duration:
  "duration_ms (finalize_taskOutput now ev r) =
     Some (case parseUsage (tool_output ev) of
             None \<Rightarrow> now - started_at r
           | Some us \<Rightarrow>
               if duration_ms_u us \<noteq> 0 then duration_ms_u us else now - started_at r)"
  by (simp add: finalize_taskOutput_def Let_def split: option.splits)

lemma find_Some_holds: "find P xs = Some x \<Longrightarrow> P x \<and> x \<in> set xs"
  by (induction xs) (auto split: if_splits)

lemma findTaskOutputAgent_running:
  assumes "findTaskOutputAgent m taskId sid = Some e"
  shows "status (snd e) = Running"
proof (cases "find (\<lambda>e. status (snd e) = Running \<and> background (snd e) \<and>
                        agentId (snd e) = Some taskId) m")
  case (Some x)
  with assms have "x = e" by (simp add: findTaskOutputAgent_def)
  with find_Some_holds[OF Some] show ?thesis by simp
next
  case None
  with assms have "oldest_loop sid None m = Some e" by (simp add: findTaskOutputAgent_def)
  from oldest_loop_Some[OF this] show ?thesis by (simp add: session_bg_cand_def)
qed

lemma str_or_empty: "str_or a [] = a"
  by (simp add: str_or_def)

lemma taskOutput_post_record:
  assumes "findTaskOutputAgent (agents st) (str_field (tool_input ev) ''task_id'')
             (session_id_e ev) = Some (k, r0)"
  shows "map_get (agents (taskOutput_post cfg now ev st)) k = Some (finalize_taskOutput now ev r0)"
  using assms findTaskOutputAgent_running[OF assms]
  by (simp add: taskOutput_post_def Let_def str_or_empty agents_scheduleAutoReset
        agents_addMessage agents_setLastCompletionTime map_get_map_set_same)

text \<open>
  Claim C5, as the code has it. A post-phase hook event that is not a background launch
  leaves, under its key, a record with \<^verbatim>\<open>ended_at\<close> the time of the event and
  \<^verbatim>\<open>duration_ms\<close> the wall-clock difference to \<^verbatim>\<open>started_at\<close>, replaced by the
  duration of the parsed usage block exactly when the difference is below 1000 and that
  duration is present and not zero. A TaskOutput event that finds a record leaves it with
  \<^verbatim>\<open>ended_at\<close> the time of the event and \<^verbatim>\<open>duration_ms\<close> the duration of the parsed
  usage block whenever that is present and not zero, whatever the wall-clock difference,
  and the wall-clock difference otherwise.
\<close>

theorem hook_completion_duration:
  "(\<not> isBgLaunch (fst (resolve_post now ev d key (agents st))) (tool_output ev) \<longrightarrow>
      (\<exists>r. map_get (agents (post_phase cfg now ev d key st)) key = Some r \<and>
           ended_at r = Some now \<and>
           duration_ms r =
             Some (let wall = now - started_at (fst (resolve_post now ev d key (agents st)))
                   in case parseUsage (tool_output ev) of
                        None \<Rightarrow> wall
                      | Some us \<Rightarrow>
                          if wall < 1000 \<and> duration_ms_u us \<noteq> 0 then duration_ms_u us
                          else wall))) \<and>
   (findTaskOutputAgent (agents st) (str_field (tool_input ev) ''task_id'') (session_id_e ev)
      = Some (k, r0) \<longrightarrow>
      (\<exists>r. map_get (agents (taskOutput_post cfg now ev st)) k = Some r \<and>
           ended_at r = Some now \<and>
           duration_ms r =
             Some (let wall = now - started_at r0
                   in case parseUsage (tool_output ev) of
                        None \<Rightarrow> wall
                      | Some us \<Rightarrow> if duration_ms_u us \<noteq> 0 then duration_ms_u us else wall)))"
proof (intro conjI impI)
  assume "\<not> isBgLaunch (fst (resolve_post now ev d key (agents st))) (tool_output ev)"
  then show "\<exists>r. map_get (agents (post_phase cfg now ev d key st)) key = Some r \<and>
           ended_at r = Some now \<and>
           duration_ms r =
             Some (let wall = now - started_at (fst (resolve_post now ev d key (agents st)))
                   in case parseUsage (tool_output ev) of
                        None \<Rightarrow> wall
                      | Some us \<Rightarrow>
                          if wall < 1000 \<and> duration_ms_u us \<noteq> 0 then duration_ms_u us
                          else wall)"
    by (simp add: post_phase_record finalize_post_ended_at finalize_post_duration Let_def
          split: option.splits)
next
  assume "findTaskOutputAgent (agents st) (str_field (tool_input ev) ''task_id'')
            (session_id_e ev) = Some (k, r0)"
  from taskOutput_post_record[OF this]
  show "\<exists>r. map_get (agents (taskOutput_post cfg now ev st)) k = Some r \<and>
           ended_at r = Some now \<and>
           duration_ms r =
             Some (let wall = now - started_at r0
                   in case parseUsage (tool_output ev) of
                        None \<Rightarrow> wall
                      | Some us \<Rightarrow> if duration_ms_u us \<noteq> 0 then duration_ms_u us else wall)"
    by (simp add: finalize_taskOutput_ended_at finalize_taskOutput_duration Let_def)
qed

text \<open>
  The post event reporting 30000 ms, 500 ms after the start: the reported duration is
  stored; 4000 ms after the start: the wall-clock 4000 is stored. The TaskOutput event
  5000 ms after the start: the reported duration is stored.
\<close>

theorem hook_completion_duration_witness:
  "map_option duration_ms (map_get (agents (post_phase defaultConfig 1500 post_usage ''d1'' ''k1'' after_pre)) ''k1'')
     = Some (Some 30000) \<and>
   map_option duration_ms (map_get (agents (post_phase defaultConfig 5000 post_usage ''d1'' ''k1'' after_pre)) ''k1'')
     = Some (Some 4000) \<and>
   map_option duration_ms (map_get (agents (taskOutput_post defaultConfig 6000 task_output_a1 bg_running)) ''k1'')
     = Some (Some 30000)"
proof -
  have r: "resolve_post now post_usage ''d1'' ''k1'' (agents after_pre)
             = (the (map_get (agents after_pre) ''k1''), agents after_pre)" for now
    by code_simp
  have s: "started_at (the (map_get (agents after_pre) ''k1'')) = 1000"
    by code_simp
  have b: "\<not> isBgLaunch (the (map_get (agents after_pre) ''k1'')) (tool_output post_usage)"
    by code_simp
  have u: "parseUsage (tool_output post_usage)
             = Some \<lparr> total_tokens_u = 0, tool_uses_u = 0, duration_ms_u = 30000 \<rparr>"
    "parseUsage (tool_output task_output_a1)
             = Some \<lparr> total_tokens_u = 0, tool_uses_u = 0, duration_ms_u = 30000 \<rparr>"
    by code_simp+
  have f: "findTaskOutputAgent (agents bg_running) (str_field (tool_input task_output_a1) ''task_id'')
             (session_id_e task_output_a1)
           = Some (''k1'', (makeAgent 1000)\<lparr>id_r := ''k1'', background := True,
                                              agentId := Some ''a1''\<rparr>)"
    by code_simp
  have p1: "\<exists>r. map_get (agents (post_phase defaultConfig 1500 post_usage ''d1'' ''k1'' after_pre)) ''k1''
                = Some r \<and> duration_ms r = Some 30000"
    using hook_completion_duration[where now=1500 and ev=post_usage and d="''d1''" and key="''k1''"
            and st=after_pre and cfg=defaultConfig, THEN conjunct1] r s b u
    by auto
  have p2: "\<exists>r. map_get (agents (post_phase defaultConfig 5000 post_usage ''d1'' ''k1'' after_pre)) ''k1''
                = Some r \<and> duration_ms r = Some 4000"
    using hook_completion_duration[where now=5000 and ev=post_usage and d="''d1''" and key="''k1''"
            and st=after_pre and cfg=defaultConfig, THEN conjunct1] r s b u
    by auto
  have p3: "\<exists>r. map_get (agents (taskOutput_post defaultConfig 6000 task_output_a1 bg_running)) ''k1''
                = Some r \<and> duration_ms r = Some 30000"
    using hook_completion_duration[where now=6000 and ev=task_output_a1 and st=bg_running
            and k="''k1''" and cfg=defaultConfig
            and ?r0.0="(makeAgent 1000)\<lparr>id_r := ''k1'', background := True, agentId := Some ''a1''\<rparr>",
            THEN conjunct2] u f
    by (auto simp: makeAgent_def)
  from p1 p2 p3 show ?thesis by auto
qed

text \<open>
  Against C5 as stated: the TaskOutput event arrives 5000 ms after the start, which is
  not below 1000, and the stored duration is the reported 30000, not the wall-clock 5000.
\<close>

theorem taskOutput_overrides_long_duration:
  "map_option started_at (map_get (agents bg_running) ''k1'') = Some 1000 \<and>
   map_option ended_at
     (map_get (agents (handle_event sampleKey defaultConfig 6000 task_output_a1 bg_running)) ''k1'')
     = Some (Some 6000) \<and>
   \<not> (6000 - 1000 < (1000::int)) \<and>
   map_option duration_ms
     (map_get (agents (handle_event sampleKey defaultConfig 6000 task_output_a1 bg_running)) ''k1'')
     = Some (Some 30000)"
  by code_simp

section \<open>A post event replayed\<close>

text \<open>
  The post-phase block does not look at the status of the record it resolves to: every
  event that is not a background launch adds its parsed usage to the session counters,
  counts one more agent and appends one more message, also when the record under the key
  was already completed or errored; the status of such a record stays completed or
  errored.
\<close>

lemma sessionUsage_scheduleAutoReset: "sessionUsage (scheduleAutoReset st) = sessionUsage st"
  by (simp add: scheduleAutoReset_def Let_def)

lemma messageCounter_scheduleAutoReset: "messageCounter (scheduleAutoReset st) = messageCounter st"
  by (simp add: scheduleAutoReset_def Let_def)

lemma agent_count_count_completion: "agent_count (count_completion u su) = agent_count su + 1"
  by (simp add: count_completion_def Let_def split: option.splits)

lemma sessionUsage_addMessage: "sessionUsage (addMessage cfg now f t ty st) = sessionUsage st"
  by (simp add: addMessage_def Let_def)

lemma post_phase_counts_every_completion:
  assumes "\<not> isBgLaunch (fst (resolve_post now ev d key (agents st))) (tool_output ev)"
  shows "sessionUsage (post_phase cfg now ev d key st)
           = count_completion (parseUsage (tool_output ev)) (sessionUsage st) \<and>
         agent_count (sessionUsage (post_phase cfg now ev d key st))
           = agent_count (sessionUsage st) + 1 \<and>
         messageCounter (post_phase cfg now ev d key st) = messageCounter st + 1"
proof -
  obtain r0 m1 where rp: "resolve_post now ev d key (agents st) = (r0, m1)"
    by (cases "resolve_post now ev d key (agents st)")
  with assms have nb: "\<not> isBgLaunch (r0\<lparr>last_activity := now\<rparr>) (tool_output ev)"
    by (simp add: isBgLaunch_def)
  show ?thesis
    using nb
    by (simp add: post_phase_def rp Let_def sessionUsage_scheduleAutoReset
          messageCounter_scheduleAutoReset agent_count_count_completion sessionUsage_addMessage
          addMessage_counter setLastCompletionTime_def)
qed

lemma resolve_post_present:
  "map_get m key = Some r \<Longrightarrow> resolve_post now ev d key m = (r, m)"
  by (simp add: resolve_post_def)

lemma post_phase_keeps_terminal:
  assumes "map_get (agents st) key = Some r" and "status r \<noteq> Running"
  shows "\<exists>r'. map_get (agents (post_phase cfg now ev d key st)) key = Some r' \<and>
              status r' \<noteq> Running"
  unfolding post_phase_record resolve_post_present[OF assms(1)]
  using assms(2) by (simp add: finalize_post_status acknowledge_launch_status)

text \<open>
  Claim C1, evaluated on the scenario: after the pre and the post event the record is
  completed, one agent is counted and the log holds one Response; after the same post
  event once more the record is still completed, but two agents are counted and the log
  holds two Responses.
\<close>

theorem duplicate_post_counts_twice:
  "map_option status (map_get (agents after_post) ''k1'') = Some Completed \<and>
   agent_count (sessionUsage after_post) = 1 \<and>
   map type_m (messages after_post) = [''Prompt'', ''Response''] \<and>
   map_option status (map_get (agents after_replay) ''k1'') = Some Completed \<and>
   agent_count (sessionUsage after_replay) = 2 \<and>
   map type_m (messages after_replay) = [''Prompt'', ''Response'', ''Response'']"
  by code_simp

section \<open>Requests that fail validation\<close>

lemma event_route_rejects:
  "HookEventSchema_safeParse body = None \<Longrightarrow> event_route mk cfg now body st = (400, st)"
  by (simp add: event_route_def)

lemma complete_route_rejects:
  "CompleteEventSchema_safeParse body = None \<Longrightarrow>
   complete_route cfg now body st = (400, st\<lparr>lastEventTime := now\<rparr>)"
  by (simp add: complete_route_def setLastEventTime_def)

text \<open>
  Claim C7, evaluated on a body whose \<^verbatim>\<open>is_error\<close> is a string: both schemas reject
  it. \<^verbatim>\<open>/complete\<close> answers 400 and leaves the state with \<^verbatim>\<open>lastEventTime\<close> set to
  the time of the request (it was 0); \<^verbatim>\<open>/event\<close> answers 400 and leaves the state as it
  was.
\<close>

theorem complete_invalid_sets_lastEventTime:
  "CompleteEventSchema_safeParse (JObj [(''is_error'', JStr ''yes'')]) = None \<and>
   complete_route defaultConfig 1000 (JObj [(''is_error'', JStr ''yes'')]) initial_state
     = (400, initial_state\<lparr>lastEventTime := 1000\<rparr>) \<and>
   lastEventTime initial_state = 0 \<and>
   HookEventSchema_safeParse (JObj [(''is_error'', JStr ''yes'')]) = None \<and>
   event_route sampleKey defaultConfig 1000 (JObj [(''is_error'', JStr ''yes'')]) initial_state
     = (400, initial_state)"
  by (simp add: complete_route_def event_route_def CompleteEventSchema_safeParse_def
        HookEventSchema_safeParse_def setLastEventTime_def initial_state_def)

section \<open>Error classification\<close>

lemma starts_with_iff: "starts_with w s \<longleftrightarrow> (\<exists>rest. s = w @ rest)"
  unfolding starts_with_def
  by (metis append_eq_conv_conj append_take_drop_id)

lemma word_boundary_before:
  "w \<noteq> [] \<Longrightarrow> is_word (hd w) \<Longrightarrow> word_boundary p (w @ rest) \<longleftrightarrow> \<not> prev_word p"
  by (cases w) (auto simp: word_boundary_def prev_word_def split: option.splits)

lemma word_boundary_after:
  "is_word c \<Longrightarrow> word_boundary (Some c) rest \<longleftrightarrow> \<not> word_after rest"
  by (cases rest) (auto simp: word_boundary_def word_after_def)

lemma alt_word_at_iff:
  assumes "w \<noteq> []" "is_word (hd w)" "is_word (last w)"
  shows "alt_word_at w p s \<longleftrightarrow> (\<exists>rest. s = w @ rest \<and> \<not> prev_word p \<and> \<not> word_after rest)"
  unfolding alt_word_at_def starts_with_iff
  using word_boundary_before[OF assms(1,2)] word_boundary_after[OF assms(3)]
  by auto

lemma is_word_letters:
  "is_word (CHR ''e'')" "is_word (CHR ''f'')" "is_word (CHR ''d'')" "is_word (CHR ''n'')"
  "is_word (CHR ''t'')" "is_word (CHR ''k'')"
  by (simp_all add: is_word_def code_def)

lemma alt_error_at_iff:
  "alt_error_at p s \<longleftrightarrow>
     (\<exists>rest. s = ''error'' @ rest \<and> \<not> prev_word p \<and> rest \<noteq> [] \<and>
        (hd rest = CHR '':'' \<or> hd rest = CHR '';'' \<or> is_space (hd rest)))"
proof -
  have b: "word_boundary p (''error'' @ rest) \<longleftrightarrow> \<not> prev_word p" for rest
    by (rule word_boundary_before) (simp_all add: is_word_letters)
  have d: "(case rest of [] \<Rightarrow> False | c # _ \<Rightarrow> c = CHR '':'' \<or> c = CHR '';'' \<or> is_space c)
        \<longleftrightarrow> rest \<noteq> [] \<and> (hd rest = CHR '':'' \<or> hd rest = CHR '';'' \<or> is_space (hd rest))"
    for rest
    by (cases rest) simp_all
  have e: "alt_error_at p (''error'' @ rest) \<longleftrightarrow>
             \<not> prev_word p \<and> rest \<noteq> [] \<and>
             (hd rest = CHR '':'' \<or> hd rest = CHR '';'' \<or> is_space (hd rest))" for rest
  proof -
    have "drop 5 (''error'' @ rest) = rest" by simp
    moreover have "starts_with ''error'' (''error'' @ rest)"
      unfolding starts_with_iff by blast
    ultimately show ?thesis
      unfolding alt_error_at_def using b[of rest] d[of rest] by simp
  qed
  show ?thesis
  proof
    assume a: "alt_error_at p s"
    then have "starts_with ''error'' s" by (simp add: alt_error_at_def)
    then obtain rest where r: "s = ''error'' @ rest" unfolding starts_with_iff by blast
    with a e[of rest] show "\<exists>rest. s = ''error'' @ rest \<and> \<not> prev_word p \<and> rest \<noteq> [] \<and>
        (hd rest = CHR '':'' \<or> hd rest = CHR '';'' \<or> is_space (hd rest))"
      by blast
  next
    assume "\<exists>rest. s = ''error'' @ rest \<and> \<not> prev_word p \<and> rest \<noteq> [] \<and>
        (hd rest = CHR '':'' \<or> hd rest = CHR '';'' \<or> is_space (hd rest))"
    then obtain rest where "s = ''error'' @ rest" "\<not> prev_word p \<and> rest \<noteq> [] \<and>
        (hd rest = CHR '':'' \<or> hd rest = CHR '';'' \<or> is_space (hd rest))" by blast
    with e[of rest] show "alt_error_at p s" by blast
  qed
qed

lemma four_alternatives:
  assumes "a \<longleftrightarrow> (\<exists>rest. s = E @ rest \<and> \<not> pw \<and> Q rest)"
      and "b \<longleftrightarrow> (\<exists>rest. s = F @ rest \<and> \<not> pw \<and> R rest)"
      and "c \<longleftrightarrow> (\<exists>rest. s = X @ rest \<and> \<not> pw \<and> R rest)"
      and "d \<longleftrightarrow> (\<exists>rest. s = T @ rest \<and> \<not> pw \<and> R rest)"
  shows "(a \<or> b \<or> c \<or> d) \<longleftrightarrow>
           (\<exists>rest. \<not> pw \<and>
              ((s = E @ rest \<and> Q rest) \<or> (s = F @ rest \<and> R rest) \<or>
               (s = X @ rest \<and> R rest) \<or> (s = T @ rest \<and> R rest)))"
  using assms by blast

lemma error_regex_at_iff:
  "error_regex_at p s \<longleftrightarrow>
     (\<exists>rest. \<not> prev_word p \<and>
        ((s = ''error'' @ rest \<and> rest \<noteq> [] \<and>
            (hd rest = CHR '':'' \<or> hd rest = CHR '';'' \<or> is_space (hd rest))) \<or>
         (s = ''failed'' @ rest \<and> \<not> word_after rest) \<or>
         (s = ''exception'' @ rest \<and> \<not> word_after rest) \<or>
         (s = ''traceback'' @ rest \<and> \<not> word_after rest)))"
proof -
  have f: "alt_word_at ''failed'' p s \<longleftrightarrow>
             (\<exists>rest. s = ''failed'' @ rest \<and> \<not> prev_word p \<and> \<not> word_after rest)"
    by (rule alt_word_at_iff) (simp_all add: is_word_letters)
  have x: "alt_word_at ''exception'' p s \<longleftrightarrow>
             (\<exists>rest. s = ''exception'' @ rest \<and> \<not> prev_word p \<and> \<not> word_after rest)"
    by (rule alt_word_at_iff) (simp_all add: is_word_letters)
  have t: "alt_word_at ''traceback'' p s \<longleftrightarrow>
             (\<exists>rest. s = ''traceback'' @ rest \<and> \<not> prev_word p \<and> \<not> word_after rest)"
    by (rule alt_word_at_iff) (simp_all add: is_word_letters)
  show ?thesis
    unfolding error_regex_at_def
    by (rule four_alternatives[OF alt_error_at_iff f x t])
qed

lemma error_regex_from_iff:
  "error_regex_from prev s \<longleftrightarrow>
     (\<exists>pre post. s = pre @ post \<and>
        error_regex_at (if pre = [] then prev else Some (last pre)) post)"
proof (induction s arbitrary: prev)
  case Nil
  then show ?case by simp
next
  case (Cons c cs)
  show ?case
  proof
    assume "error_regex_from prev (c # cs)"
    then consider "error_regex_at prev (c # cs)" | "error_regex_from (Some c) cs" by auto
    then show "\<exists>pre post. c # cs = pre @ post \<and>
        error_regex_at (if pre = [] then prev else Some (last pre)) post"
    proof cases
      case 1
      then have "c # cs = [] @ (c # cs) \<and>
          error_regex_at (if ([]::string) = [] then prev else Some (last [])) (c # cs)" by simp
      then show ?thesis by blast
    next
      case 2
      with Cons.IH[of "Some c"] obtain pre post where
        p: "cs = pre @ post" "error_regex_at (if pre = [] then Some c else Some (last pre)) post"
        by auto
      then have "c # cs = (c # pre) @ post \<and>
          error_regex_at (if c # pre = [] then prev else Some (last (c # pre))) post"
        by auto
      then show ?thesis by blast
    qed
  next
    assume "\<exists>pre post. c # cs = pre @ post \<and>
        error_regex_at (if pre = [] then prev else Some (last pre)) post"
    then obtain pre post where
      p: "c # cs = pre @ post" "error_regex_at (if pre = [] then prev else Some (last pre)) post"
      by auto
    show "error_regex_from prev (c # cs)"
    proof (cases pre)
      case Nil
      with p have "post = c # cs" "error_regex_at prev post" by simp_all
      then show ?thesis by simp
    next
      case (Cons a pre')
      with p have "cs = pre' @ post" "a = c" by auto
      moreover from p Cons have
        "error_regex_at (if pre' = [] then Some c else Some (last pre')) post"
        using \<open>a = c\<close> by (auto split: if_splits)
      ultimately have "error_regex_from (Some c) cs"
        using Cons.IH[of "Some c"] by blast
      then show ?thesis by simp
    qed
  qed
qed

lemma prev_word_last:
  "prev_word (if pre = [] then None else Some (last pre)) \<longleftrightarrow> word_before pre"
  by (simp add: prev_word_def word_before_def)

lemma search_alternatives:
  assumes "t \<longleftrightarrow> (\<exists>pre post. s = pre @ post \<and> At pre post)"
      and "\<And>pre post. At pre post \<longleftrightarrow>
             (\<exists>rest. \<not> wb pre \<and>
                ((post = E @ rest \<and> Q rest) \<or> (post = F @ rest \<and> R rest) \<or>
                 (post = X @ rest \<and> R rest) \<or> (post = T @ rest \<and> R rest)))"
  shows "t \<longleftrightarrow>
           (\<exists>pre post.
              (s = pre @ E @ post \<and> \<not> wb pre \<and> Q post) \<or>
              (s = pre @ F @ post \<and> \<not> wb pre \<and> R post) \<or>
              (s = pre @ X @ post \<and> \<not> wb pre \<and> R post) \<or>
              (s = pre @ T @ post \<and> \<not> wb pre \<and> R post))"
  unfolding assms by blast

lemma error_regex_test_iff: "error_regex_test s \<longleftrightarrow> matches_error_regex s"
proof -
  have a: "error_regex_test s \<longleftrightarrow>
             (\<exists>pre post. s = pre @ post \<and>
                error_regex_at (if pre = [] then None else Some (last pre)) post)"
    unfolding error_regex_test_def by (rule error_regex_from_iff)
  have b: "error_regex_at (if pre = [] then None else Some (last pre)) post \<longleftrightarrow>
             (\<exists>rest. \<not> word_before pre \<and>
                ((post = ''error'' @ rest \<and> rest \<noteq> [] \<and>
                    (hd rest = CHR '':'' \<or> hd rest = CHR '';'' \<or> is_space (hd rest))) \<or>
                 (post = ''failed'' @ rest \<and> \<not> word_after rest) \<or>
                 (post = ''exception'' @ rest \<and> \<not> word_after rest) \<or>
                 (post = ''traceback'' @ rest \<and> \<not> word_after rest)))" for pre post
    unfolding error_regex_at_iff prev_word_last by (rule refl)
  show ?thesis
    unfolding matches_error_regex_def
    by (rule search_alternatives[OF a b])
qed

lemma isError_absent:
  "isError None out \<longleftrightarrow>
     (\<exists>str. out = Some str \<and> matches_error_regex (toLowerCase (take 500 str)))"
  by (cases out) (simp_all add: isError_def error_regex_test_iff)

lemma complete_event_record:
  assumes "findMatchingAgent (agents st) (tool_use_id_c cev) (agent_id cev) = Some (k, r0)"
  shows "\<exists>r. map_get (agents (complete_event cfg now cev st)) k = Some r \<and>
             status r = (if is_error_c cev = Some True then Errored else Completed)"
  using assms
  by (simp add: complete_event_def Let_def agents_scheduleAutoReset agents_addMessage
        agents_setLastCompletionTime map_get_map_set_same)

text \<open>
  Claim C10, as the code has it. Without an \<^verbatim>\<open>is_error\<close> flag \<^verbatim>\<open>isError\<close> is
  false for an output that is not a string, and for a string it holds exactly when the
  first 500 characters, in lower case, match the regular expression. A post-phase hook
  event without the flag that is not a background launch, and a TaskOutput event without
  the flag that finds a record, leave the record errored when the output matches and
  completed otherwise. A \<^verbatim>\<open>/complete\<close> signal leaves the record it finds errored when
  its \<^verbatim>\<open>is_error\<close> is true and completed otherwise, whatever its result text.
\<close>

theorem error_classification:
  "\<not> isError None None \<and>
   (isError None (Some str) \<longleftrightarrow> matches_error_regex (toLowerCase (take 500 str))) \<and>
   (is_error ev = None \<and>
    \<not> isBgLaunch (fst (resolve_post now ev d key (agents st))) (tool_output ev) \<longrightarrow>
      (\<exists>r. map_get (agents (post_phase cfg now ev d key st)) key = Some r \<and>
           status r =
             (if \<exists>out. tool_output ev = Some out \<and>
                       matches_error_regex (toLowerCase (take 500 out))
              then Errored else Completed))) \<and>
   (is_error ev = None \<and>
    findTaskOutputAgent (agents st) (str_field (tool_input ev) ''task_id'') (session_id_e ev)
      = Some (k, r0) \<longrightarrow>
      (\<exists>r. map_get (agents (taskOutput_post cfg now ev st)) k = Some r \<and>
           status r =
             (if \<exists>out. tool_output ev = Some out \<and>
                       matches_error_regex (toLowerCase (take 500 out))
              then Errored else Completed))) \<and>
   (findMatchingAgent (agents st) (tool_use_id_c cev) (agent_id cev) = Some (k', r1) \<longrightarrow>
      (\<exists>r. map_get (agents (complete_event cfg now cev st)) k' = Some r \<and>
           status r = (if is_error_c cev = Some True then Errored else Completed)))"
proof (intro conjI impI)
  show "\<not> isError None None" by (simp add: isError_def)
  show "isError None (Some str) \<longleftrightarrow> matches_error_regex (toLowerCase (take 500 str))"
    by (simp add: isError_absent)
next
  assume a: "is_error ev = None \<and>
    \<not> isBgLaunch (fst (resolve_post now ev d key (agents st))) (tool_output ev)"
  then show "\<exists>r. map_get (agents (post_phase cfg now ev d key st)) key = Some r \<and>
           status r =
             (if \<exists>out. tool_output ev = Some out \<and>
                       matches_error_regex (toLowerCase (take 500 out))
              then Errored else Completed)"
    using isError_absent[of "tool_output ev"]
    by (simp add: post_phase_record finalize_post_status)
next
  assume a: "is_error ev = None \<and>
    findTaskOutputAgent (agents st) (str_field (tool_input ev) ''task_id'') (session_id_e ev)
      = Some (k, r0)"
  then have f: "findTaskOutputAgent (agents st) (str_field (tool_input ev) ''task_id'')
      (session_id_e ev) = Some (k, r0)" by simp
  from taskOutput_post_record[OF f] a isError_absent[of "tool_output ev"]
  show "\<exists>r. map_get (agents (taskOutput_post cfg now ev st)) k = Some r \<and>
           status r =
             (if \<exists>out. tool_output ev = Some out \<and>
                       matches_error_regex (toLowerCase (take 500 out))
              then Errored else Completed)"
    by (simp add: finalize_taskOutput_status)
next
  assume "findMatchingAgent (agents st) (tool_use_id_c cev) (agent_id cev) = Some (k', r1)"
  from complete_event_record[OF this, of cfg now]
  show "\<exists>r. map_get (agents (complete_event cfg now cev st)) k' = Some r \<and>
           status r = (if is_error_c cev = Some True then Errored else Completed)"
    by auto
qed

text \<open>
  The output "0 failed" matches; the post event and the TaskOutput event carrying it
  leave the record errored, the post event with output "done" leaves it completed, and
  the \<^verbatim>\<open>/complete\<close> signal with result "0 failed" leaves it completed.
\<close>

theorem error_classification_witness:
  "matches_error_regex (toLowerCase (take 500 ''0 failed'')) \<and>
   map_option status
     (map_get (agents (post_phase defaultConfig 5000 post_failed ''d1'' ''k1'' after_pre)) ''k1'')
     = Some Errored \<and>
   map_option status
     (map_get (agents (post_phase defaultConfig 5000 post_done ''d1'' ''k1'' after_pre)) ''k1'')
     = Some Completed \<and>
   map_option status
     (map_get (agents (taskOutput_post defaultConfig 6000
        (task_output_a1\<lparr>tool_output := Some ''0 failed''\<rparr>) bg_running)) ''k1'')
     = Some Errored \<and>
   map_option status
     (map_get (agents (complete_event defaultConfig 5000
        (the (CompleteEventSchema_safeParse complete_failed)) after_pre)) ''k1'')
     = Some Completed"
proof -
  have e: "isError None (Some ''0 failed'')" "\<not> isError None (Some ''done'')" by code_simp+
  note t = error_classification[where str="''0 failed''", THEN conjunct2, THEN conjunct1]
  note t' = error_classification[where str="''done''", THEN conjunct2, THEN conjunct1]
  from e t t' have m: "matches_error_regex (toLowerCase (take 500 ''0 failed''))"
    "\<not> matches_error_regex (toLowerCase (take 500 ''done''))" by blast+
  have ie: "is_error post_failed = None" "is_error post_done = None"
    "tool_output post_failed = Some ''0 failed''" "tool_output post_done = Some ''done''"
    "is_error (task_output_a1\<lparr>tool_output := Some ''0 failed''\<rparr>) = None"
    by code_simp+
  have b: "\<not> isBgLaunch (fst (resolve_post 5000 post_failed ''d1'' ''k1'' (agents after_pre)))
              (tool_output post_failed)"
    "\<not> isBgLaunch (fst (resolve_post 5000 post_done ''d1'' ''k1'' (agents after_pre)))
              (tool_output post_done)"
    by code_simp+
  have p1: "\<exists>r. map_get (agents (post_phase defaultConfig 5000 post_failed ''d1'' ''k1'' after_pre)) ''k1''
                = Some r \<and> status r = Errored"
    using error_classification[where ev=post_failed and now=5000 and d="''d1''" and key="''k1''"
            and st=after_pre and cfg=defaultConfig,
            THEN conjunct2, THEN conjunct2, THEN conjunct1] ie b m
    by auto
  have p2: "\<exists>r. map_get (agents (post_phase defaultConfig 5000 post_done ''d1'' ''k1'' after_pre)) ''k1''
                = Some r \<and> status r = Completed"
    using error_classification[where ev=post_done and now=5000 and d="''d1''" and key="''k1''"
            and st=after_pre and cfg=defaultConfig,
            THEN conjunct2, THEN conjunct2, THEN conjunct1] ie b m
    by auto
  have f: "findTaskOutputAgent (agents bg_running)
             (str_field (tool_input (task_output_a1\<lparr>tool_output := Some ''0 failed''\<rparr>)) ''task_id'')
             (session_id_e (task_output_a1\<lparr>tool_output := Some ''0 failed''\<rparr>))
           = Some (''k1'', (makeAgent 1000)\<lparr>id_r := ''k1'', background := True,
                                              agentId := Some ''a1''\<rparr>)"
    by code_simp
  have p3: "\<exists>r. map_get (agents (taskOutput_post defaultConfig 6000
                (task_output_a1\<lparr>tool_output := Some ''0 failed''\<rparr>) bg_running)) ''k1''
                = Some r \<and> status r = Errored"
    using error_classification[where ev="task_output_a1\<lparr>tool_output := Some ''0 failed''\<rparr>"
            and now=6000 and st=bg_running and cfg=defaultConfig and k="''k1''"
            and ?r0.0="(makeAgent 1000)\<lparr>id_r := ''k1'', background := True, agentId := Some ''a1''\<rparr>",
            THEN conjunct2, THEN conjunct2, THEN conjunct2, THEN conjunct1] ie f m
    by auto
  have g: "findMatchingAgent (agents after_pre)
             (tool_use_id_c (the (CompleteEventSchema_safeParse complete_failed)))
             (agent_id (the (CompleteEventSchema_safeParse complete_failed)))
           = Some (''k1'', the (map_get (agents after_pre) ''k1''))"
    "is_error_c (the (CompleteEventSchema_safeParse complete_failed)) = None"
    by code_simp+
  have p4: "\<exists>r. map_get (agents (complete_event defaultConfig 5000
                (the (CompleteEventSchema_safeParse complete_failed)) after_pre)) ''k1''
                = Some r \<and> status r = Completed"
    using error_classification[where cev="the (CompleteEventSchema_safeParse complete_failed)"
            and now=5000 and st=after_pre and cfg=defaultConfig and k'="''k1''"
            and ?r1.0="the (map_get (agents after_pre) ''k1'')",
            THEN conjunct2, THEN conjunct2, THEN conjunct2, THEN conjunct2] g
    by auto
  from m p1 p2 p3 p4 show ?thesis by auto
qed

text \<open>
  Against C10 as stated: a \<^verbatim>\<open>/complete\<close> signal without \<^verbatim>\<open>is_error\<close> whose result
  is "0 failed", a text \<^verbatim>\<open>isError\<close> classifies as an error, is answered 200 and
  leaves the running record completed.
\<close>

theorem complete_ignores_result_text:
  "map_option is_error_c (CompleteEventSchema_safeParse complete_failed) = Some None \<and>
   isError None (Some ''0 failed'') \<and>
   map_option status (map_get (agents after_pre) ''k1'') = Some Running \<and>
   fst (complete_route defaultConfig 5000 complete_failed after_pre) = 200 \<and>
   map_option status
     (map_get (agents (snd (complete_route defaultConfig 5000 complete_failed after_pre))) ''k1'')
     = Some Completed"
  by code_simp

section \<open>Re-keying\<close>

lemma map_get_member: "(k, v) \<in> set m \<Longrightarrow> map_get m k \<noteq> None"
  by (induction m) (auto simp: map_get_def)

lemma resolve_post_rekey:
  assumes "map_get m K2 = None"
      and "find (rekey_match (session_id_e ev) d) m = Some (K1, r)"
  shows "resolve_post now ev d K2 m = (r\<lparr>id_r := K2\<rparr>, map_set (map_delete m K1) K2 (r\<lparr>id_r := K2\<rparr>))"
proof -
  have "(\<lambda>e. session_id (snd e) = session_id_e ev \<and> description (snd e) = d \<and>
            isMatchable (snd e)) = rekey_match (session_id_e ev) d"
    by (rule ext) (simp add: rekey_match_def)
  with assms show ?thesis
    by (simp add: resolve_post_def Let_def)
qed

lemma pre_phase_creates:
  "\<exists>r0. map_get (agents (pre_phase cfg t0 pev d K1 st0)) K1 = Some r0 \<and> id_r r0 = K1 \<and>
        session_id r0 = session_id_e pev \<and> description r0 = d \<and> status r0 = Running"
  by (simp add: pre_phase_def Let_def agents_addMessage map_get_map_set_same)

lemma post_phase_rekey:
  assumes "map_get (agents st) K2 = None"
      and "find (rekey_match (session_id_e ev) d) (agents st) = Some (K1, r)"
  shows "K1 \<noteq> K2 \<and>
         map_get (agents (post_phase cfg now ev d K2 st)) K1 = None \<and>
         (\<exists>r'. map_get (agents (post_phase cfg now ev d K2 st)) K2 = Some r' \<and>
               id_r r' = K2 \<and>
               status r' =
                 (if isBgLaunch r (tool_output ev) then status r
                  else if isError (is_error ev) (tool_output ev) then Errored
                  else Completed))"
proof -
  from find_Some_holds[OF assms(2)] have "(K1, r) \<in> set (agents st)" by simp
  from map_get_member[OF this] assms(1) have ne: "K1 \<noteq> K2" by auto
  note rp = resolve_post_rekey[OF assms, of now]
  have bg: "isBgLaunch (r\<lparr>id_r := K2\<rparr>) out = isBgLaunch r out" for out
    by (simp add: isBgLaunch_def)
  have "map_get (agents (post_phase cfg now ev d K2 st)) K1
          = map_get (map_set (map_delete (agents st) K1) K2 (r\<lparr>id_r := K2\<rparr>)) K1"
    unfolding post_phase_agents rp using ne by (simp add: map_get_map_set_other)
  also have "\<dots> = None"
    using ne by (simp add: map_get_map_set_other map_get_map_delete_same)
  finally have a: "map_get (agents (post_phase cfg now ev d K2 st)) K1 = None" .
  have b: "\<exists>r'. map_get (agents (post_phase cfg now ev d K2 st)) K2 = Some r' \<and>
               id_r r' = K2 \<and>
               status r' =
                 (if isBgLaunch r (tool_output ev) then status r
                  else if isError (is_error ev) (tool_output ev) then Errored
                  else Completed)"
    unfolding post_phase_record rp
    by (simp add: bg finalize_post_status finalize_post_id acknowledge_launch_status
          acknowledge_launch_id)
  from ne a b show ?thesis by blast
qed

lemma map_set_map_set: "map_set (map_set m k v) k v' = map_set m k v'"
  by (induction m k v rule: map_set.induct) auto

lemma post_phase_rekey_exact:
  assumes "map_get (agents st) K2 = None"
      and "find (rekey_match (session_id_e ev) d) (agents st) = Some (K1, r)"
  shows "agents (post_phase cfg now ev d K2 st) =
           map_set (map_delete (agents st) K1) K2
             (if isBgLaunch r (tool_output ev)
              then acknowledge_launch (tool_output ev) (r\<lparr>id_r := K2, last_activity := now\<rparr>)
              else finalize_post now ev (r\<lparr>id_r := K2, last_activity := now\<rparr>))"
proof -
  note rp = resolve_post_rekey[OF assms, of now]
  have bg: "isBgLaunch (r\<lparr>id_r := K2\<rparr>) out = isBgLaunch r out" for out
    by (simp add: isBgLaunch_def)
  show ?thesis
    unfolding post_phase_agents rp by (simp add: bg map_set_map_set)
qed

text \<open>
  Claim C2, as the code has it. The pre-phase block leaves under its key K1 a running
  record with that id and the session and description of the event. When a post-phase
  event arrives with a key K2 that is not in the registry, and the first record in
  insertion order with the event's session and description that is running (or errored
  by a restart) is the record \<open>r\<close> under K1, then K1 differs from K2, the registry
  afterwards has no record under K1, and it is the registry before with the entry of K1
  deleted and, under K2, the record \<open>r\<close> itself with its id set to K2, its last activity
  set to the time of the event, and the assignments of the post block: those of
  \<open>finalize_post\<close>, or, for a background launch, those of \<open>acknowledge_launch\<close>. So
  the record under K2 has id K2 and the status the post gives it: errored or completed by
  \<^verbatim>\<open>isError\<close>, or, for a background launch, the status it had; every field the post
  block does not assign (start time, prompt, parent, agent type) is the one of \<open>r\<close>.
\<close>

theorem post_rekey_moves_record:
  "(\<exists>r0. map_get (agents (pre_phase cfg t0 pev d K1 st0)) K1 = Some r0 \<and> id_r r0 = K1 \<and>
         session_id r0 = session_id_e pev \<and> description r0 = d \<and> status r0 = Running) \<and>
   (map_get (agents st) K2 = None \<and>
    find (rekey_match (session_id_e ev) d) (agents st) = Some (K1, r) \<longrightarrow>
      K1 \<noteq> K2 \<and>
      map_get (agents (post_phase cfg now ev d K2 st)) K1 = None \<and>
      agents (post_phase cfg now ev d K2 st) =
        map_set (map_delete (agents st) K1) K2
          (if isBgLaunch r (tool_output ev)
           then acknowledge_launch (tool_output ev) (r\<lparr>id_r := K2, last_activity := now\<rparr>)
           else finalize_post now ev (r\<lparr>id_r := K2, last_activity := now\<rparr>)) \<and>
      (\<exists>r'. map_get (agents (post_phase cfg now ev d K2 st)) K2 = Some r' \<and>
            r' = (if isBgLaunch r (tool_output ev)
                  then acknowledge_launch (tool_output ev) (r\<lparr>id_r := K2, last_activity := now\<rparr>)
                  else finalize_post now ev (r\<lparr>id_r := K2, last_activity := now\<rparr>)) \<and>
            id_r r' = K2 \<and>
            status r' =
              (if isBgLaunch r (tool_output ev) then status r
               else if isError (is_error ev) (tool_output ev) then Errored
               else Completed)))"
proof -
  have "K1 \<noteq> K2 \<and>
      map_get (agents (post_phase cfg now ev d K2 st)) K1 = None \<and>
      agents (post_phase cfg now ev d K2 st) =
        map_set (map_delete (agents st) K1) K2
          (if isBgLaunch r (tool_output ev)
           then acknowledge_launch (tool_output ev) (r\<lparr>id_r := K2, last_activity := now\<rparr>)
           else finalize_post now ev (r\<lparr>id_r := K2, last_activity := now\<rparr>)) \<and>
      (\<exists>r'. map_get (agents (post_phase cfg now ev d K2 st)) K2 = Some r' \<and>
            r' = (if isBgLaunch r (tool_output ev)
                  then acknowledge_launch (tool_output ev) (r\<lparr>id_r := K2, last_activity := now\<rparr>)
                  else finalize_post now ev (r\<lparr>id_r := K2, last_activity := now\<rparr>)) \<and>
            id_r r' = K2 \<and>
            status r' =
              (if isBgLaunch r (tool_output ev) then status r
               else if isError (is_error ev) (tool_output ev) then Errored
               else Completed))"
    if h: "map_get (agents st) K2 = None"
          "find (rekey_match (session_id_e ev) d) (agents st) = Some (K1, r)"
  proof -
    note ex = post_phase_rekey_exact[OF h, of cfg now]
    from post_phase_rekey[OF h, of cfg now]
    have ne: "K1 \<noteq> K2"
      and gone: "map_get (agents (post_phase cfg now ev d K2 st)) K1 = None"
      by blast+
    have at: "map_get (agents (post_phase cfg now ev d K2 st)) K2 =
            Some (if isBgLaunch r (tool_output ev)
                  then acknowledge_launch (tool_output ev) (r\<lparr>id_r := K2, last_activity := now\<rparr>)
                  else finalize_post now ev (r\<lparr>id_r := K2, last_activity := now\<rparr>))"
      unfolding ex by (rule map_get_map_set_same)
    have idst: "id_r (if isBgLaunch r (tool_output ev)
                  then acknowledge_launch (tool_output ev) (r\<lparr>id_r := K2, last_activity := now\<rparr>)
                  else finalize_post now ev (r\<lparr>id_r := K2, last_activity := now\<rparr>)) = K2"
      "status (if isBgLaunch r (tool_output ev)
                  then acknowledge_launch (tool_output ev) (r\<lparr>id_r := K2, last_activity := now\<rparr>)
                  else finalize_post now ev (r\<lparr>id_r := K2, last_activity := now\<rparr>)) =
              (if isBgLaunch r (tool_output ev) then status r
               else if isError (is_error ev) (tool_output ev) then Errored
               else Completed)"
      by (simp_all add: finalize_post_status finalize_post_id acknowledge_launch_status
            acknowledge_launch_id)
    from ne gone ex at idst show ?thesis by simp
  qed
  then have B: "map_get (agents st) K2 = None \<and>
    find (rekey_match (session_id_e ev) d) (agents st) = Some (K1, r) \<longrightarrow>
      K1 \<noteq> K2 \<and>
      map_get (agents (post_phase cfg now ev d K2 st)) K1 = None \<and>
      agents (post_phase cfg now ev d K2 st) =
        map_set (map_delete (agents st) K1) K2
          (if isBgLaunch r (tool_output ev)
           then acknowledge_launch (tool_output ev) (r\<lparr>id_r := K2, last_activity := now\<rparr>)
           else finalize_post now ev (r\<lparr>id_r := K2, last_activity := now\<rparr>)) \<and>
      (\<exists>r'. map_get (agents (post_phase cfg now ev d K2 st)) K2 = Some r' \<and>
            r' = (if isBgLaunch r (tool_output ev)
                  then acknowledge_launch (tool_output ev) (r\<lparr>id_r := K2, last_activity := now\<rparr>)
                  else finalize_post now ev (r\<lparr>id_r := K2, last_activity := now\<rparr>)) \<and>
            id_r r' = K2 \<and>
            status r' =
              (if isBgLaunch r (tool_output ev) then status r
               else if isError (is_error ev) (tool_output ev) then Errored
               else Completed))"
    by (intro impI) (elim conjE)
  show ?thesis by (rule conjI[OF pre_phase_creates B])
qed

text \<open>
  The pre event of the scenario (key \<^verbatim>\<open>k1\<close>, started at 1 s) followed at 3 s by the
  post event under \<^verbatim>\<open>kC\<close>: the registry then holds one record, under \<^verbatim>\<open>kC\<close>,
  completed, with the start time, agent type and parent of the record that was under
  \<^verbatim>\<open>k1\<close> and the duration counted from that start. After a restart, the record
  \<^verbatim>\<open>a1\<close> errored by the restart moves to \<^verbatim>\<open>kC\<close> and is completed, keeping its
  start time and prompt.
\<close>

theorem post_rekey_moves_record_witness:
  "map_option (\<lambda>r. (id_r r, session_id r, description r, status r))
     (map_get (agents (pre_phase defaultConfig 1000 pre_d1 ''d1'' ''k1'' initial_state)) ''k1'')
     = Some (''k1'', ''s1'', ''d1'', Running) \<and>
   map_get (agents after_pre) ''kC'' = None \<and>
   find (rekey_match ''s1'' ''d1'') (agents after_pre)
     = Some (''k1'', the (map_get (agents after_pre) ''k1'')) \<and>
   map_option (\<lambda>r. (started_at r, subagent_type r, parent_id r))
     (map_get (agents after_pre) ''k1'') = Some (1000, ''worker'', ''__user__'') \<and>
   map_get (agents (post_phase defaultConfig 3000 post_kC ''d1'' ''kC'' after_pre)) ''k1'' = None \<and>
   map (\<lambda>e. (fst e, id_r (snd e), status (snd e), started_at (snd e), last_activity (snd e),
              duration_ms (snd e), subagent_type (snd e), parent_id (snd e)))
     (agents (post_phase defaultConfig 3000 post_kC ''d1'' ''kC'' after_pre))
     = [(''kC'', ''kC'', Completed, 1000, 3000, Some 2000, ''worker'', ''__user__'')] \<and>
   map_option (\<lambda>r. (id_r r, status r))
     (map_get (agents (post_phase defaultConfig 3000 post_kC ''d1'' ''kC'' after_pre)) ''kC'')
     = Some (''kC'', Completed) \<and>
   map_option (\<lambda>r. (status r, started_at r, prompt r))
     (map_get (agents after_restart) ''a1'') = Some (Errored, 5, ''Do something'') \<and>
   map_get (agents (post_phase defaultConfig 3000 post_test_agent ''Test agent'' ''kC'' after_restart))
     ''a1'' = None \<and>
   map_option (\<lambda>r. (id_r r, status r, started_at r, duration_ms r, prompt r, error r))
     (map_get (agents (post_phase defaultConfig 3000 post_test_agent ''Test agent'' ''kC'' after_restart))
        ''kC'')
     = Some (''kC'', Completed, 5, Some 2995, ''Do something'', None)"
proof -
  have h1: "map_get (agents after_pre) ''kC'' = None" by code_simp
  have h2: "find (rekey_match (session_id_e post_kC) ''d1'') (agents after_pre)
              = Some (''k1'', the (map_get (agents after_pre) ''k1''))"
    "session_id_e post_kC = ''s1''" "session_id_e pre_d1 = ''s1''"
    by code_simp+
  have h3: "map_option (\<lambda>r. (started_at r, subagent_type r, parent_id r))
     (map_get (agents after_pre) ''k1'') = Some (1000, ''worker'', ''__user__'')"
    by code_simp
  have b: "\<not> isBgLaunch (the (map_get (agents after_pre) ''k1'')) (tool_output post_kC)"
    "\<not> isError (is_error post_kC) (tool_output post_kC)"
    by code_simp+
  have m: "map (\<lambda>e. (fst e, id_r (snd e), status (snd e), started_at (snd e), last_activity (snd e),
              duration_ms (snd e), subagent_type (snd e), parent_id (snd e)))
     (map_set (map_delete (agents after_pre) ''k1'') ''kC''
        (finalize_post 3000 post_kC
           ((the (map_get (agents after_pre) ''k1''))\<lparr>id_r := ''kC'', last_activity := 3000\<rparr>)))
     = [(''kC'', ''kC'', Completed, 1000, 3000, Some 2000, ''worker'', ''__user__'')]"
    by code_simp
  have g1: "map_get (agents after_restart) ''kC'' = None" by code_simp
  have g2: "find (rekey_match (session_id_e post_test_agent) ''Test agent'') (agents after_restart)
              = Some (''a1'', the (map_get (agents after_restart) ''a1''))"
    "map_option (\<lambda>r. (status r, started_at r, prompt r))
       (map_get (agents after_restart) ''a1'') = Some (Errored, 5, ''Do something'')"
    by code_simp+
  have c: "\<not> isBgLaunch (the (map_get (agents after_restart) ''a1'')) (tool_output post_test_agent)"
    "\<not> isError (is_error post_test_agent) (tool_output post_test_agent)"
    by code_simp+
  have n: "(\<lambda>r. (id_r r, status r, started_at r, duration_ms r, prompt r, error r))
     (finalize_post 3000 post_test_agent
        ((the (map_get (agents after_restart) ''a1''))\<lparr>id_r := ''kC'', last_activity := 3000\<rparr>))
     = (''kC'', Completed, 5, Some 2995, ''Do something'', None)"
    by code_simp
  from post_rekey_moves_record[where cfg=defaultConfig and ?t0.0=1000 and pev=pre_d1
         and d="''d1''" and ?K1.0="''k1''" and ?st0.0=initial_state and st=after_pre
         and ?K2.0="''kC''" and ev=post_kC and now=3000
         and r="the (map_get (agents after_pre) ''k1'')"]
       h1 h2 b m
  have p1: "map_option (\<lambda>r. (id_r r, session_id r, description r, status r))
     (map_get (agents (pre_phase defaultConfig 1000 pre_d1 ''d1'' ''k1'' initial_state)) ''k1'')
     = Some (''k1'', ''s1'', ''d1'', Running) \<and>
   map_get (agents (post_phase defaultConfig 3000 post_kC ''d1'' ''kC'' after_pre)) ''k1'' = None \<and>
   map (\<lambda>e. (fst e, id_r (snd e), status (snd e), started_at (snd e), last_activity (snd e),
              duration_ms (snd e), subagent_type (snd e), parent_id (snd e)))
     (agents (post_phase defaultConfig 3000 post_kC ''d1'' ''kC'' after_pre))
     = [(''kC'', ''kC'', Completed, 1000, 3000, Some 2000, ''worker'', ''__user__'')] \<and>
   map_option (\<lambda>r. (id_r r, status r))
     (map_get (agents (post_phase defaultConfig 3000 post_kC ''d1'' ''kC'' after_pre)) ''kC'')
     = Some (''kC'', Completed)"
    by auto
  from post_rekey_moves_record[where cfg=defaultConfig and d="''Test agent''"
         and ?K1.0="''a1''" and st=after_restart
         and ?K2.0="''kC''" and ev=post_test_agent and now=3000
         and r="the (map_get (agents after_restart) ''a1'')", THEN conjunct2]
       g1 g2(1) c n
  have p2: "map_get (agents (post_phase defaultConfig 3000 post_test_agent ''Test agent'' ''kC'' after_restart))
     ''a1'' = None \<and>
   map_option (\<lambda>r. (id_r r, status r, started_at r, duration_ms r, prompt r, error r))
     (map_get (agents (post_phase defaultConfig 3000 post_test_agent ''Test agent'' ''kC'' after_restart))
        ''kC'')
     = Some (''kC'', Completed, 5, Some 2995, ''Do something'', None)"
    by auto
  from p1 p2 h1 h2 h3 g2 show ?thesis by simp
qed

text \<open>
  Against C2 as stated: two pre events with the same session and description create
  records under \<^verbatim>\<open>kA\<close> and \<^verbatim>\<open>kB\<close>; the post event under the new key \<^verbatim>\<open>kC\<close>
  matches the record under \<^verbatim>\<open>kB\<close> in session and description, and that record is
  running; but the scan moves the record under \<^verbatim>\<open>kA\<close>, and the registry still holds
  the running record under \<^verbatim>\<open>kB\<close>.
\<close>

theorem rekey_leaves_later_record:
  "map_option (\<lambda>r. (session_id r, description r, status r))
      (map_get (agents two_same_description) ''kB'') = Some (''s1'', ''d1'', Running) \<and>
   map_get (agents two_same_description) ''kC'' = None \<and>
   map_option (\<lambda>r. (id_r r, status r))
      (map_get (agents (handle_event sampleKey defaultConfig 3000 post_kC two_same_description)) ''kC'')
      = Some (''kC'', Completed) \<and>
   map_option status
      (map_get (agents (handle_event sampleKey defaultConfig 3000 post_kC two_same_description)) ''kB'')
      = Some Running"
  by code_simp

end
